theory Spec2Isabelle
  imports Main
begin

section \<open>JavaScript strings\<close>

text \<open>
  A JavaScript string is modelled by the list of its UTF-16 code units, each an Isabelle
  \<open>char\<close>; the model therefore covers the strings whose code units lie below 256
  (ASCII and Latin-1). Every character class of the source is transcribed for that range.
\<close>

definition LF :: char where
  "LF = CHR 0x0A"

definition isWhiteSpace :: "char \<Rightarrow> bool" where
  \<comment> \<open>the characters removed by \<open>String.prototype.trim\<close> and matched by \<open>\s\<close>\<close>
  "isWhiteSpace c = (c \<in> set [CHR 0x09, CHR 0x0A, CHR 0x0B, CHR 0x0C, CHR 0x0D, CHR 0x20, CHR 0xA0])"

definition isLineTerminator :: "char \<Rightarrow> bool" where
  \<comment> \<open>the characters a regular-expression dot does not match\<close>
  "isLineTerminator c = (c = CHR 0x0A \<or> c = CHR 0x0D)"

definition isDigit :: "char \<Rightarrow> bool" where
  \<comment> \<open>\<open>\d\<close>\<close>
  "isDigit c = (let n = (of_char c :: nat) in 48 \<le> n \<and> n \<le> 57)"

definition isWordChar :: "char \<Rightarrow> bool" where
  \<comment> \<open>\<open>\w\<close>, that is \<open>[A-Za-z0-9_]\<close>\<close>
  "isWordChar c = (let n = (of_char c :: nat) in
     (65 \<le> n \<and> n \<le> 90) \<or> (97 \<le> n \<and> n \<le> 122) \<or> (48 \<le> n \<and> n \<le> 57) \<or> n = 95)"

definition trimStart :: "string \<Rightarrow> string" where
  "trimStart s = dropWhile isWhiteSpace s"

definition trimEnd :: "string \<Rightarrow> string" where
  "trimEnd s = rev (dropWhile isWhiteSpace (rev s))"

definition trim :: "string \<Rightarrow> string" where
  "trim s = trimEnd (trimStart s)"

definition startsWith :: "string \<Rightarrow> string \<Rightarrow> bool" where
  "startsWith s p = (take (length p) s = p)"

fun indexOfFrom :: "string \<Rightarrow> string \<Rightarrow> nat \<Rightarrow> nat option" where
  \<comment> \<open>\<open>indexOfFrom p s i\<close>: the first index of \<open>p\<close> in \<open>s\<close>, counted from \<open>i\<close>\<close>
  "indexOfFrom p [] i = (if p = [] then Some i else None)"
| "indexOfFrom p (c # cs) i =
     (if startsWith (c # cs) p then Some i else indexOfFrom p cs (Suc i))"

definition indexOf :: "string \<Rightarrow> string \<Rightarrow> nat option" where
  \<comment> \<open>\<open>s.indexOf(p)\<close>, with \<open>None\<close> for \<open>-1\<close>\<close>
  "indexOf s p = indexOfFrom p s 0"

definition includesStr :: "string \<Rightarrow> string \<Rightarrow> bool" where
  "includesStr s p = (indexOf s p \<noteq> None)"

fun splitOn :: "char \<Rightarrow> string \<Rightarrow> string list" where
  \<comment> \<open>\<open>s.split(c)\<close> for a one-character separator\<close>
  "splitOn d [] = [[]]"
| "splitOn d (c # cs) =
     (if c = d then [] # splitOn d cs
      else (case splitOn d cs of l # ls \<Rightarrow> (c # l) # ls | [] \<Rightarrow> [[c]]))"

fun joinWith :: "string \<Rightarrow> string list \<Rightarrow> string" where
  \<comment> \<open>\<open>xs.join(sep)\<close>\<close>
  "joinWith sep [] = []"
| "joinWith sep [x] = x"
| "joinWith sep (x # y # ys) = x @ sep @ joinWith sep (y # ys)"

section \<open>Filename safety (mcp/utils.mjs)\<close>

definition isNameChar :: "char \<Rightarrow> bool" where
  \<comment> \<open>the class \<open>[\w.-]\<close>\<close>
  "isNameChar c = (isWordChar c \<or> c = CHR ''.'' \<or> c = CHR ''-'')"

definition safeNameRegexTest :: "string \<Rightarrow> bool" where
  \<comment> \<open>\<open>/^[\w.-]+\.mdx$/.test(s)\<close>: the greedy class run takes the longest prefix of class
      characters and gives characters back one at a time (never fewer than one) until
      the rest of the input is exactly \<open>.mdx\<close>\<close>
  "safeNameRegexTest s =
     (let n = length (takeWhile isNameChar s)
      in list_ex (\<lambda>k. drop k s = ''.mdx'') (rev [1..<Suc n]))"

definition isSafeFilename :: "string \<Rightarrow> bool" where
  "isSafeFilename filename = (safeNameRegexTest filename \<and> \<not> includesStr filename ''..'')"

section \<open>JavaScript values\<close>

text \<open>
  The values a parsed JSON request can hold. A number is carried as the text that
  \<open>Number::toString\<close> gives it, which is what \<open>String\<close>, a template literal and
  \<open>JSON.stringify\<close> print for a finite number: the source never computes with a number,
  it only prints it. An object is the list of its own properties in the order
  \<open>Object.entries\<close> enumerates them, with distinct keys; no value of a parsed request is
  callable. Values are nested no deeper than the engine's call stack lets \<open>join\<close> descend.
\<close>

datatype jsval =
    JUndefined
  | JNull
  | JBool bool
  | JNum string
  | JStr string
  | JArr "jsval list"
  | JObj "(string \<times> jsval) list"

datatype error = TypeError

abbreviation DQ :: char where
  "DQ \<equiv> CHR 0x22"

abbreviation BSLASH :: char where
  "BSLASH \<equiv> CHR 0x5C"

fun collect :: "(error + 'a) list \<Rightarrow> error + 'a list" where
  \<comment> \<open>results computed one after the other: the first exception ends the computation\<close>
  "collect [] = Inr []"
| "collect (x # xs) =
     (case x of
        Inl e \<Rightarrow> Inl e
      | Inr a \<Rightarrow> (case collect xs of Inl e \<Rightarrow> Inl e | Inr rest \<Rightarrow> Inr (a # rest)))"

fun toString :: "jsval \<Rightarrow> error + string" where
  \<comment> \<open>\<open>String(v)\<close>, also the conversion of a template literal's \<open>${v}\<close>. An array prints
      through \<open>join\<close>, which prints \<open>null\<close> and \<open>undefined\<close> as nothing. An object prints
      through \<open>Object.prototype.toString\<close>, unless an own property \<open>toString\<close> hides it:
      that property is not callable, \<open>valueOf\<close> gives no primitive either, and the
      conversion throws.\<close>
  "toString JUndefined = Inr ''undefined''"
| "toString JNull = Inr ''null''"
| "toString (JBool b) = Inr (if b then ''true'' else ''false'')"
| "toString (JNum t) = Inr t"
| "toString (JStr s) = Inr s"
| "toString (JArr xs) =
     (case collect (map (\<lambda>x. if x = JUndefined \<or> x = JNull then Inr [] else toString x) xs) of
        Inl e \<Rightarrow> Inl e
      | Inr ts \<Rightarrow> Inr (joinWith '','' ts))"
| "toString (JObj fs) =
     (if ''toString'' \<in> set (map fst fs) then Inl TypeError else Inr ''[object Object]'')"

fun getProp :: "jsval \<Rightarrow> string \<Rightarrow> error + jsval" where
  \<comment> \<open>the property read \<open>m.k\<close>, used with the keys \<open>title\<close>, \<open>weeks\<close> and \<open>status\<close> only,
      which no string, number, boolean or array has\<close>
  "getProp JUndefined k = Inl TypeError"
| "getProp JNull k = Inl TypeError"
| "getProp (JObj fs) k = Inr (case map_of fs k of Some v \<Rightarrow> v | None \<Rightarrow> JUndefined)"
| "getProp v k = Inr JUndefined"

fun isArray :: "jsval \<Rightarrow> bool" where
  "isArray (JArr xs) = True"
| "isArray v = False"

fun elems :: "jsval \<Rightarrow> jsval list" where
  "elems (JArr xs) = xs"
| "elems v = []"

section \<open>The frontmatter encoder (pages/api/update-plan.ts)\<close>

definition escapeBackslashes :: "string \<Rightarrow> string" where
  \<comment> \<open>\<open>.replace(/\\/g, '\\\\')\<close>: every backslash becomes two\<close>
  "escapeBackslashes s = concat (map (\<lambda>c. if c = BSLASH then [BSLASH, BSLASH] else [c]) s)"

definition escapeQuotes :: "string \<Rightarrow> string" where
  \<comment> \<open>\<open>.replace(/"/g, '\\"')\<close>: every double quote gets a backslash before it\<close>
  "escapeQuotes s = concat (map (\<lambda>c. if c = DQ then [BSLASH, DQ] else [c]) s)"

fun serializeYamlValue :: "jsval \<Rightarrow> error + string" where
  "serializeYamlValue (JStr s) = Inr ([DQ] @ escapeQuotes (escapeBackslashes s) @ [DQ])"
| "serializeYamlValue (JBool b) = toString (JBool b)"
| "serializeYamlValue (JNum t) = toString (JNum t)"
| "serializeYamlValue v = toString v"

fun milestoneLines :: "jsval \<Rightarrow> error + string list" where
  \<comment> \<open>the three \<open>lines.push\<close> of one milestone, in the order the source evaluates them;
      reading a property of \<open>null\<close> or \<open>undefined\<close> throws, and so does printing a value
      that has no string conversion\<close>
  "milestoneLines m =
     (case getProp m ''title'' of Inl e \<Rightarrow> Inl e | Inr t \<Rightarrow>
      case serializeYamlValue t of Inl e \<Rightarrow> Inl e | Inr titleText \<Rightarrow>
      case getProp m ''weeks'' of Inl e \<Rightarrow> Inl e | Inr w \<Rightarrow>
      case serializeYamlValue w of Inl e \<Rightarrow> Inl e | Inr weeksText \<Rightarrow>
      case getProp m ''status'' of Inl e \<Rightarrow> Inl e | Inr st \<Rightarrow>
      case toString st of Inl e \<Rightarrow> Inl e | Inr statusText \<Rightarrow>
        Inr [''  - title: '' @ titleText,
             ''    weeks: '' @ weeksText,
             ''    status: '' @ [DQ] @ statusText @ [DQ]])"

declare milestoneLines.simps [simp del]

fun pushMilestones :: "string list \<Rightarrow> jsval list \<Rightarrow> error + string list" where
  \<comment> \<open>the inner loop \<open>for (const m of value)\<close>, threading \<open>lines\<close>\<close>
  "pushMilestones lines [] = Inr lines"
| "pushMilestones lines (m # ms) =
     (case milestoneLines m of Inl e \<Rightarrow> Inl e | Inr ls \<Rightarrow> pushMilestones (lines @ ls) ms)"

definition tagsLine :: "jsval list \<Rightarrow> error + string" where
  \<comment> \<open>\<open>`tags: [${value.map((t) => `"${t}"`).join(', ')}]`\<close>\<close>
  "tagsLine ts =
     (case collect (map toString ts) of
        Inl e \<Rightarrow> Inl e
      | Inr texts \<Rightarrow> Inr (''tags: ['' @ joinWith '', '' (map (\<lambda>t. [DQ] @ t @ [DQ]) texts) @ '']''))"

fun buildLines :: "string list \<Rightarrow> (string \<times> jsval) list \<Rightarrow> error + string list" where
  \<comment> \<open>the loop over \<open>Object.entries(data)\<close>, threading \<open>lines\<close>\<close>
  "buildLines lines [] = Inr lines"
| "buildLines lines ((key, v) # rest) =
     (if key = ''milestones'' \<and> isArray v then
        (case pushMilestones (lines @ [''milestones:'']) (elems v) of
           Inl e \<Rightarrow> Inl e
         | Inr lines' \<Rightarrow> buildLines lines' rest)
      else if key = ''tags'' \<and> isArray v then
        (case tagsLine (elems v) of
           Inl e \<Rightarrow> Inl e
         | Inr line \<Rightarrow> buildLines (lines @ [line]) rest)
      else if v \<noteq> JUndefined \<and> v \<noteq> JNull then
        (case serializeYamlValue v of
           Inl e \<Rightarrow> Inl e
         | Inr text \<Rightarrow> buildLines (lines @ [key @ '': '' @ text]) rest)
      else buildLines lines rest)"

definition buildFrontmatter :: "(string \<times> jsval) list \<Rightarrow> error + string" where
  "buildFrontmatter data =
     (case buildLines [] data of Inl e \<Rightarrow> Inl e | Inr lines \<Rightarrow> Inr (joinWith [LF] lines))"

definition assembleDocument :: "(string \<times> jsval) list \<Rightarrow> string \<Rightarrow> error + string" where
  \<comment> \<open>the two statements of \<open>POST\<close> that compute the file content:
      \<open>`---\n${fm}\n---\n\n${mdxBody.trim()}\n`\<close>\<close>
  "assembleDocument frontmatter mdxBody =
     (case buildFrontmatter frontmatter of
        Inl e \<Rightarrow> Inl e
      | Inr fm \<Rightarrow> Inr (''---'' @ [LF] @ fm @ [LF] @ ''---'' @ [LF, LF] @ trim mdxBody @ [LF]))"

datatype response = BadRequest | NotFound | ServerError | Ok

definition POST :: "(string \<Rightarrow> bool) \<Rightarrow> string \<Rightarrow> (string \<times> jsval) list \<Rightarrow> string
    \<Rightarrow> response \<times> string option" where
  \<comment> \<open>the handler, given which files exist: the response and the content written, if any\<close>
  "POST existsSync filename frontmatter mdxBody =
     (if filename = [] \<or> \<not> safeNameRegexTest filename then (BadRequest, None)
      else if \<not> existsSync filename then (NotFound, None)
      else (case assembleDocument frontmatter mdxBody of
              Inl e \<Rightarrow> (ServerError, None)
            | Inr content \<Rightarrow> (Ok, Some content)))"

section \<open>The lightweight frontmatter reader (mcp/utils.mjs)\<close>

definition matchFrontmatter :: "string \<Rightarrow> string option" where
  \<comment> \<open>group 1 of \<open>raw.match(/^---\n([\s\S]*?)\n---/)\<close>: after the opening line, the lazy
      group ends at the first line break that three hyphens follow\<close>
  "matchFrontmatter raw =
     (if startsWith raw (''---'' @ [LF])
      then (case indexOf (drop 4 raw) ([LF] @ ''---'') of
              None \<Rightarrow> None
            | Some k \<Rightarrow> Some (take k (drop 4 raw)))
      else None)"




subsection \<open>The encoder's output, field by field\<close>

text \<open>
  A second description of the encoder, one field at a time and without the accumulator,
  against which \<open>buildFrontmatter\<close> is compared: the block form belongs to the key
  \<open>milestones\<close>, the bracketed form to the key \<open>tags\<close>, every other value that is neither
  \<open>undefined\<close> nor \<open>null\<close> is one \<open>key: scalar\<close> line.
\<close>

definition nullish :: "jsval \<Rightarrow> bool" where
  "nullish v = (v = JUndefined \<or> v = JNull)"

fun printable :: "jsval \<Rightarrow> bool" where
  \<comment> \<open>a value that has a string conversion: neither an object with an own property
      \<open>toString\<close> nor an array that holds a value without one\<close>
  "printable (JObj fs) = (''toString'' \<notin> set (map fst fs))"
| "printable (JArr xs) = list_all printable xs"
| "printable v = True"

definition printedText :: "jsval \<Rightarrow> string" where
  \<comment> \<open>the text of a printable value\<close>
  "printedText v = (case toString v of Inl e \<Rightarrow> [] | Inr t \<Rightarrow> t)"

definition scalarText :: "jsval \<Rightarrow> string" where
  \<comment> \<open>the scalar serialization of a printable value\<close>
  "scalarText v = (case serializeYamlValue v of Inl e \<Rightarrow> [] | Inr t \<Rightarrow> t)"

definition field :: "jsval \<Rightarrow> string \<Rightarrow> jsval" where
  "field m k = (case getProp m k of Inl e \<Rightarrow> JUndefined | Inr v \<Rightarrow> v)"

definition recordBlock :: "jsval \<Rightarrow> string list" where
  "recordBlock m =
     [''  - title: '' @ scalarText (field m ''title''),
      ''    weeks: '' @ scalarText (field m ''weeks''),
      ''    status: '' @ [DQ] @ printedText (field m ''status'') @ [DQ]]"

definition tagsText :: "jsval list \<Rightarrow> string" where
  "tagsText ts = ''tags: ['' @ joinWith '', '' (map (\<lambda>t. [DQ] @ printedText t @ [DQ]) ts) @ '']''"

definition encodeField :: "string \<times> jsval \<Rightarrow> string list" where
  "encodeField e =
     (case e of (key, v) \<Rightarrow>
        if key = ''milestones'' \<and> isArray v then ''milestones:'' # concat (map recordBlock (elems v))
        else if key = ''tags'' \<and> isArray v then [tagsText (elems v)]
        else if nullish v then []
        else [key @ '': '' @ scalarText v])"

definition encodableRecord :: "jsval \<Rightarrow> bool" where
  \<comment> \<open>a milestone whose three lines can be written: not \<open>null\<close> or \<open>undefined\<close>, and its
      title, weeks and status printable\<close>
  "encodableRecord m =
     (\<not> nullish m \<and> printable (field m ''title'') \<and> printable (field m ''weeks'')
      \<and> printable (field m ''status''))"

definition encodable :: "string \<times> jsval \<Rightarrow> bool" where
  \<comment> \<open>a field the encoder can write: every value it has to print is printable, and no
      element of a \<open>milestones\<close> array is \<open>null\<close> or \<open>undefined\<close>\<close>
  "encodable e =
     (case e of (key, v) \<Rightarrow>
        if key = ''milestones'' \<and> isArray v then list_all encodableRecord (elems v)
        else if key = ''tags'' \<and> isArray v then list_all printable (elems v)
        else printable v)"

definition bodyAfterHeader :: "string \<Rightarrow> string option" where
  \<comment> \<open>the body a document holds: what follows the header block as the expression
      \<open>/^---\n([\s\S]*?)\n---/\<close> of \<open>readFrontmatter\<close> and \<open>update_frontmatter\<close> delimits it
      (the opening line, the block, the first line break followed by three hyphens) and
      the blank line that the document format has after the closing line\<close>
  "bodyAfterHeader doc =
     (case matchFrontmatter doc of
        None \<Rightarrow> None
      | Some block \<Rightarrow>
          (let rest = drop (4 + length block + 4) doc
           in if startsWith rest [LF, LF] then Some (drop 2 rest) else None))"

subsection \<open>Headers the lightweight reader returns unchanged\<close>

definition plainKey :: "string \<Rightarrow> bool" where
  \<comment> \<open>a key the reader finds again: not empty, no colon or line break, no white space at
      either end, not beginning with three hyphens, and not \<open>__proto__\<close>\<close>
  "plainKey k =
     (k \<noteq> [] \<and> CHR '':'' \<notin> set k \<and> LF \<notin> set k \<and> \<not> isWhiteSpace (hd k) \<and> \<not> isWhiteSpace (last k)
      \<and> \<not> startsWith k ''---'' \<and> k \<noteq> ''__proto__'')"

definition isNumChar :: "char \<Rightarrow> bool" where
  \<comment> \<open>the characters of a printed finite number: digits, signs, the decimal point and
      the exponent mark\<close>
  "isNumChar c = (isDigit c \<or> c = CHR ''-'' \<or> c = CHR ''+'' \<or> c = CHR ''.'' \<or> c = CHR ''e'')"

definition numberText :: "string \<Rightarrow> bool" where
  \<comment> \<open>the form of the text of every finite number\<close>
  "numberText t = (t \<noteq> [] \<and> list_all isNumChar t)"

fun plainScalar :: "jsval \<Rightarrow> bool" where
  \<comment> \<open>a boolean, a number, or a string without double quote, backslash or line terminator\<close>
  "plainScalar (JStr s) = list_all (\<lambda>c. c \<noteq> DQ \<and> c \<noteq> BSLASH \<and> \<not> isLineTerminator c) s"
| "plainScalar (JBool b) = True"
| "plainScalar (JNum t) = numberText t"
| "plainScalar v = False"

definition headerLine :: "string \<times> jsval \<Rightarrow> string" where
  \<comment> \<open>the line of a scalar field: \<open>`${key}: ${serializeYamlValue(value)}`\<close>\<close>
  "headerLine e = fst e @ '': '' @ scalarText (snd e)"

section \<open>Chat messages (components/ChatLog.tsx)\<close>









section \<open>Plan sections (components/PlanContent.tsx, components/EditablePlan.tsx)\<close>

record Section =
  level :: nat
  title :: string
  content :: string

definition headingMatch :: "string \<Rightarrow> string \<Rightarrow> string option" where
  \<comment> \<open>group 1 of \<open>line.match(/^## (.+)/)\<close> (marker \<open>## \<close>) and of \<open>line.match(/^### (.+)/)\<close>
      (marker \<open>### \<close>): the marker, then at least one character that is not a line
      terminator, taken greedily\<close>
  "headingMatch marker line =
     (let r = drop (length marker) line
      in if startsWith line marker \<and> r \<noteq> [] \<and> \<not> isLineTerminator (hd r)
         then Some (takeWhile (\<lambda>c. \<not> isLineTerminator c) r) else None)"

record sectionState =
  sections :: "Section list"
  current :: "Section option"
  contentLines :: "string list"

definition flush :: "sectionState \<Rightarrow> sectionState" where
  \<comment> \<open>the closure \<open>flush\<close>: all three updates sit inside \<open>if (current)\<close>\<close>
  "flush st =
     (case current st of
        None \<Rightarrow> st
      | Some cur \<Rightarrow>
          st\<lparr>sections := sections st @ [cur\<lparr>content := trim (joinWith [LF] (contentLines st))\<rparr>],
             contentLines := []\<rparr>)"

definition sectionStep :: "sectionState \<Rightarrow> string \<Rightarrow> sectionState" where
  \<comment> \<open>one iteration of the loop over the lines\<close>
  "sectionStep st line =
     (case headingMatch ''## '' line of
        Some t \<Rightarrow> (flush st)\<lparr>current := Some \<lparr>level = 2, title = trim t, content = []\<rparr>\<rparr>
      | None \<Rightarrow>
          (case headingMatch ''### '' line of
             Some t \<Rightarrow> (flush st)\<lparr>current := Some \<lparr>level = 3, title = trim t, content = []\<rparr>\<rparr>
           | None \<Rightarrow> st\<lparr>contentLines := contentLines st @ [line]\<rparr>))"

definition parseSections :: "string \<Rightarrow> Section list" where
  "parseSections raw =
     sections (flush (foldl sectionStep \<lparr>sections = [], current = None, contentLines = []\<rparr>
                        (splitOn LF raw)))"

definition introBreak :: "string \<Rightarrow> bool" where
  \<comment> \<open>\<open>/^##\s/.test(line)\<close>\<close>
  "introBreak line = (startsWith line ''##'' \<and> 2 < length line \<and> isWhiteSpace (line ! 2))"

definition introOf :: "string \<Rightarrow> string" where
  \<comment> \<open>the intro of \<open>PlanContent\<close> and of \<open>EditablePlan\<close>: the lines up to the first one
      that passes \<open>/^##\s/\<close>, joined and trimmed\<close>
  "introOf rawContent = trim (joinWith [LF] (takeWhile (\<lambda>line. \<not> introBreak line) (splitOn LF rawContent)))"

definition segmentSections :: "string \<Rightarrow> string \<times> Section list" where
  \<comment> \<open>what both plan components compute from the body: the intro and the sections\<close>
  "segmentSections rawContent = (introOf rawContent, parseSections rawContent)"

definition sectionsToBody :: "string \<Rightarrow> Section list \<Rightarrow> string" where
  "sectionsToBody intro secs =
     joinWith [LF, LF]
       ((if trim intro \<noteq> [] then [trim intro] else [])
        @ concat (map (\<lambda>s. (replicate (level s) (CHR ''#'') @ '' '' @ title s)
                            # (if content s \<noteq> [] then [content s] else [])) secs))"

section \<open>Inline spans\<close>

text \<open>
  \<open>renderInlineMarkdown\<close> of ChatLog.tsx and \<open>renderInline\<close> of PlanContent.tsx and of
  EditablePlan.tsx run the same loop over the same regular expression
  \<open>/(\*\*(.+?)\*\*)|(`(.+?)`)|(\[(.+?)\]\((.+?)\))|(\*(.+?)\*)/g\<close>
  and differ in the class names of the elements only, which are not modelled.
\<close>

datatype inline =
    Text string
  | Strong string
  | Code string
  | Link string string
  | Em string

fun lazyUntil :: "string \<Rightarrow> string \<Rightarrow> (string \<times> nat) option" where
  \<comment> \<open>\<open>(.+?)\<close> followed by the literal \<open>pat\<close>: the shortest non-empty run of characters that
      are not line terminators after which \<open>pat\<close> stands; the group and the number of
      characters matched, \<open>pat\<close> included\<close>
  "lazyUntil pat [] = None"
| "lazyUntil pat (c # cs) =
     (if isLineTerminator c then None
      else if startsWith cs pat then Some ([c], Suc (length pat))
      else map_option (\<lambda>(g, n). (c # g, Suc n)) (lazyUntil pat cs))"

fun lazyLink :: "string \<Rightarrow> (string \<times> string \<times> nat) option" where
  \<comment> \<open>\<open>(.+?)\]\((.+?)\)\<close>: the first group grows until \<open>](\<close> follows and the second
      group finds its closing parenthesis\<close>
  "lazyLink [] = None"
| "lazyLink (c # cs) =
     (if isLineTerminator c then None
      else (case (if startsWith cs '']('' then lazyUntil '')'' (drop 2 cs) else None) of
              Some (u, n) \<Rightarrow> Some ([c], u, 3 + n)
            | None \<Rightarrow> map_option (\<lambda>(t, u, n). (c # t, u, Suc n)) (lazyLink cs)))"

definition matchAt :: "string \<Rightarrow> (inline \<times> nat) option" where
  \<comment> \<open>the expression tried at the head of \<open>s\<close>, alternatives in order: the span of the
      branch taken and the length of \<open>match[0]\<close>\<close>
  "matchAt s =
     (case (if startsWith s ''**'' then lazyUntil ''**'' (drop 2 s) else None) of
        Some (g, n) \<Rightarrow> Some (Strong g, 2 + n)
      | None \<Rightarrow>
     (case (if startsWith s ''`'' then lazyUntil ''`'' (drop 1 s) else None) of
        Some (g, n) \<Rightarrow> Some (Code g, 1 + n)
      | None \<Rightarrow>
     (case (if startsWith s ''['' then lazyLink (drop 1 s) else None) of
        Some (t, u, n) \<Rightarrow> Some (Link t u, 1 + n)
      | None \<Rightarrow>
     (case (if startsWith s ''*'' then lazyUntil ''*'' (drop 1 s) else None) of
        Some (g, n) \<Rightarrow> Some (Em g, 1 + n)
      | None \<Rightarrow> None))))"

function inlineFrom :: "string \<Rightarrow> string \<Rightarrow> inline list" where
  \<comment> \<open>the \<open>exec\<close> loop: \<open>pend\<close> is the text since \<open>last\<close>, the second argument the text
      from the position being tried\<close>
  "inlineFrom pend [] = (if pend = [] then [] else [Text pend])"
| "inlineFrom pend (c # cs) =
     (case matchAt (c # cs) of
        None \<Rightarrow> inlineFrom (pend @ [c]) cs
      | Some (sp, n) \<Rightarrow>
          (if pend = [] then [] else [Text pend]) @ sp # inlineFrom [] (drop (n - 1) cs))"
  by pat_completeness auto
termination
  by (relation "measure (\<lambda>(pend, s). length s)") auto

definition renderInline :: "string \<Rightarrow> inline list" where
  "renderInline text = inlineFrom [] text"

section \<open>Blocks\<close>

datatype listItem =
    Bullet "inline list"
  | CheckItem bool "inline list"

datatype block =
    Paragraph "inline list"
  | UList "listItem list"
  | OList "inline list list"
  | Checklist "(bool \<times> inline list) list"
  | Blockquote "inline list"
  | Callout string "inline list"
  | Divider
  | CodeBlock string string

subsection \<open>The line tests shared by the three renderers\<close>

fun ulTest :: "string \<Rightarrow> bool" where
  \<comment> \<open>\<open>/^[-*]\s/.test(trimmed)\<close>\<close>
  "ulTest (a # b # r) = ((a = CHR ''-'' \<or> a = CHR ''*'') \<and> isWhiteSpace b)"
| "ulTest t = False"

definition ulItem :: "string \<Rightarrow> string" where
  \<comment> \<open>\<open>trimmed.replace(/^[-*]\s/, '')\<close>\<close>
  "ulItem t = (if ulTest t then drop 2 t else t)"

definition olPrefix :: "string \<Rightarrow> nat option" where
  \<comment> \<open>the length of the match of \<open>/^\d+\.\s/\<close>, if any\<close>
  "olPrefix t =
     (let ds = takeWhile isDigit t
      in if ds = [] then None
         else (case dropWhile isDigit t of
                 a # b # r \<Rightarrow> if a = CHR ''.'' \<and> isWhiteSpace b then Some (length ds + 2) else None
               | _ \<Rightarrow> None))"

definition olTest :: "string \<Rightarrow> bool" where
  "olTest t = (olPrefix t \<noteq> None)"

definition olItem :: "string \<Rightarrow> string" where
  \<comment> \<open>\<open>trimmed.replace(/^\d+\.\s/, '')\<close>\<close>
  "olItem t = (case olPrefix t of None \<Rightarrow> t | Some n \<Rightarrow> drop n t)"

fun quoteText :: "string \<Rightarrow> string" where
  \<comment> \<open>\<open>trimmed.replace(/^>\s?/, '')\<close>\<close>
  "quoteText (a # b # r) = (if a = CHR ''>'' then (if isWhiteSpace b then r else b # r) else a # b # r)"
| "quoteText [a] = (if a = CHR ''>'' then [] else [a])"
| "quoteText [] = []"

definition hrTest :: "string \<Rightarrow> bool" where
  \<comment> \<open>\<open>/^-{3,}$/.test(trimmed)\<close>\<close>
  "hrTest t = (3 \<le> length t \<and> list_all (\<lambda>c. c = CHR ''-'') t)"

definition dotPlus :: "string \<Rightarrow> string option" where
  \<comment> \<open>\<open>(.+)\<close> at the end of an expression: at least one character, up to the first line
      terminator\<close>
  "dotPlus r = (if r \<noteq> [] \<and> \<not> isLineTerminator (hd r)
                then Some (takeWhile (\<lambda>c. \<not> isLineTerminator c) r) else None)"

fun emojiMatch :: "(char \<Rightarrow> bool) \<Rightarrow> string \<Rightarrow> (string \<times> string) option" where
  \<comment> \<open>\<open>q.match(/^([...])\s*(.+)/u)\<close> for the class given: the icon and the text. The white
      space run is greedy and gives characters back when nothing follows it.\<close>
  "emojiMatch cls [] = None"
| "emojiMatch cls (e # rest) =
     (if cls e then
        (case dotPlus (dropWhile isWhiteSpace rest) of
           Some t \<Rightarrow> Some ([e], t)
         | None \<Rightarrow>
             (case dropWhile isLineTerminator (rev (takeWhile isWhiteSpace rest)) of
                [] \<Rightarrow> None
              | x # xs \<Rightarrow> Some ([e], [x])))
      else None)"

section \<open>The chat renderer (components/ChatLog.tsx)\<close>

datatype renderedBlock =
    TextBlock string
  | CodeRegion string string

definition codeMatchAt :: "string \<Rightarrow> (string \<times> string \<times> nat) option" where
  \<comment> \<open>\<open>/```(\w*)\n([\s\S]*?)```/\<close> tried at the head of \<open>s\<close>: the word characters after the
      three backticks, a line break, and the text up to the next three backticks; the
      two groups and the length of the match\<close>
  "codeMatchAt s =
     (if startsWith s ''```'' then
        (let lang = takeWhile isWordChar (drop 3 s)
         in case dropWhile isWordChar (drop 3 s) of
              [] \<Rightarrow> None
            | c # r \<Rightarrow>
                if c = LF then
                  (case indexOf r ''```'' of
                     None \<Rightarrow> None
                   | Some k \<Rightarrow> Some (lang, take k r, 3 + length lang + 1 + k + 3))
                else None)
      else None)"

function parseBlocksFrom :: "string \<Rightarrow> string \<Rightarrow> renderedBlock list" where
  \<comment> \<open>the \<open>exec\<close> loop of \<open>parseBlocks\<close>: \<open>pend\<close> is the content since \<open>lastIndex\<close>\<close>
  "parseBlocksFrom pend [] =
     (let remaining = trim pend in if remaining = [] then [] else [TextBlock remaining])"
| "parseBlocksFrom pend (c # cs) =
     (case codeMatchAt (c # cs) of
        None \<Rightarrow> parseBlocksFrom (pend @ [c]) cs
      | Some (lang, code, n) \<Rightarrow>
          (if pend \<noteq> [] \<and> trim pend \<noteq> [] then [TextBlock (trim pend)] else [])
          @ CodeRegion (if lang = [] then ''text'' else lang) (trimEnd code)
          # parseBlocksFrom [] (drop (n - 1) cs))"
  by pat_completeness auto
termination
  by (relation "measure (\<lambda>(pend, s). length s)") auto

definition parseBlocks :: "string \<Rightarrow> renderedBlock list" where
  "parseBlocks contentStr = parseBlocksFrom [] contentStr"

type_synonym textState = "block list \<times> string list \<times> string list"

fun flushUlT :: "textState \<Rightarrow> textState" where
  "flushUlT (elements, listItems, olItems) =
     (if listItems \<noteq> [] then (elements @ [UList (map (\<lambda>li. Bullet (renderInline li)) listItems)], [], olItems)
      else (elements, listItems, olItems))"

fun flushOlT :: "textState \<Rightarrow> textState" where
  "flushOlT (elements, listItems, olItems) =
     (if olItems \<noteq> [] then (elements @ [OList (map renderInline olItems)], listItems, [])
      else (elements, listItems, olItems))"

fun pushT :: "block \<Rightarrow> textState \<Rightarrow> textState" where
  "pushT b (elements, listItems, olItems) = (elements @ [b], listItems, olItems)"

definition textStep :: "textState \<Rightarrow> string \<Rightarrow> textState" where
  \<comment> \<open>one iteration of the loop of \<open>renderTextBlock\<close>\<close>
  "textStep st line =
     (let trimmed = trim line
      in if trimmed = [] then flushOlT (flushUlT st)
         else if ulTest trimmed then
           (case flushOlT st of (els, ul, ol) \<Rightarrow> (els, ul @ [ulItem trimmed], ol))
         else if olTest trimmed then
           (case flushUlT st of (els, ul, ol) \<Rightarrow> (els, ul, ol @ [olItem trimmed]))
         else if startsWith trimmed ''>'' then
           pushT (Blockquote (renderInline (quoteText trimmed))) (flushOlT (flushUlT st))
         else pushT (Paragraph (renderInline trimmed)) (flushOlT (flushUlT st)))"

definition renderTextBlock :: "string \<Rightarrow> block list" where
  "renderTextBlock text = fst (flushOlT (flushUlT (foldl textStep ([], [], []) (splitOn LF text))))"

fun renderRegion :: "renderedBlock \<Rightarrow> block list" where
  \<comment> \<open>what a bubble shows for one block of \<open>parseBlocks\<close>\<close>
  "renderRegion (CodeRegion language code) = [CodeBlock language code]"
| "renderRegion (TextBlock text) = renderTextBlock text"

definition renderMessage :: "string \<Rightarrow> block list" where
  \<comment> \<open>the content of \<open>UserBubble\<close> and of \<open>AIBubble\<close> (not collapsed)\<close>
  "renderMessage contentStr = concat (map renderRegion (parseBlocks contentStr))"

section \<open>The plan renderer (components/PlanContent.tsx)\<close>

definition planEmoji :: "char \<Rightarrow> bool" where
  \<comment> \<open>the class \<open>[\u{1F300}-\u{1FAD6}\u{2600}-\u{27BF}\u{FE00}-\u{FE0F}\u{1F900}-\u{1F9FF}]\<close>;
      no code unit below 256 belongs to it\<close>
  "planEmoji c =
     (let n = (of_char c :: int)
      in (0x1F300 \<le> n \<and> n \<le> 0x1FAD6) \<or> (0x2600 \<le> n \<and> n \<le> 0x27BF)
         \<or> (0xFE00 \<le> n \<and> n \<le> 0xFE0F) \<or> (0x1F900 \<le> n \<and> n \<le> 0x1F9FF))"

fun checkMatch :: "string \<Rightarrow> (bool \<times> string) option" where
  \<comment> \<open>\<open>trimmed.match(/^[-*]\s\[([ xX])\]\s(.+)/)\<close>: whether the box is checked, and the
      text\<close>
  "checkMatch (a # b # c # d # e # f # r) =
     (if (a = CHR ''-'' \<or> a = CHR ''*'') \<and> isWhiteSpace b \<and> c = CHR ''[''
         \<and> (d = CHR '' '' \<or> d = CHR ''x'' \<or> d = CHR ''X'') \<and> e = CHR '']'' \<and> isWhiteSpace f
      then map_option (\<lambda>t. (d \<noteq> CHR '' '', t)) (dotPlus r) else None)"
| "checkMatch t = None"

type_synonym blockState = "block list \<times> string list \<times> string list \<times> (bool \<times> string) list"

fun flushUlB :: "blockState \<Rightarrow> blockState" where
  "flushUlB (elements, listItems, olItems, checklistItems) =
     (if listItems \<noteq> []
      then (elements @ [UList (map (\<lambda>li. Bullet (renderInline li)) listItems)], [], olItems, checklistItems)
      else (elements, listItems, olItems, checklistItems))"

fun flushOlB :: "blockState \<Rightarrow> blockState" where
  "flushOlB (elements, listItems, olItems, checklistItems) =
     (if olItems \<noteq> []
      then (elements @ [OList (map renderInline olItems)], listItems, [], checklistItems)
      else (elements, listItems, olItems, checklistItems))"

fun flushChecklist :: "blockState \<Rightarrow> blockState" where
  "flushChecklist (elements, listItems, olItems, checklistItems) =
     (if checklistItems \<noteq> []
      then (elements @ [Checklist (map (\<lambda>(checked, t). (checked, renderInline t)) checklistItems)],
            listItems, olItems, [])
      else (elements, listItems, olItems, checklistItems))"

fun pushB :: "block \<Rightarrow> blockState \<Rightarrow> blockState" where
  "pushB b (elements, listItems, olItems, checklistItems) =
     (elements @ [b], listItems, olItems, checklistItems)"

definition quoteBlock :: "(char \<Rightarrow> bool) \<Rightarrow> string \<Rightarrow> block" where
  \<comment> \<open>the element pushed for a line that starts with \<open>></\<close>: a callout when the quoted text
      opens with a character of the class, a blockquote otherwise\<close>
  "quoteBlock cls trimmed =
     (case emojiMatch cls (quoteText trimmed) of
        Some (icon, t) \<Rightarrow> Callout icon (renderInline t)
      | None \<Rightarrow> Blockquote (renderInline (quoteText trimmed)))"

definition blockStep :: "blockState \<Rightarrow> string \<Rightarrow> blockState" where
  \<comment> \<open>one iteration of the loop of \<open>renderBlock\<close>\<close>
  "blockStep st line =
     (let trimmed = trim line
      in if trimmed = [] then flushChecklist (flushOlB (flushUlB st))
         else (case checkMatch trimmed of
           Some item \<Rightarrow>
             (case flushOlB (flushUlB st) of (els, ul, ol, cl) \<Rightarrow> (els, ul, ol, cl @ [item]))
         | None \<Rightarrow>
           if ulTest trimmed then
             (case flushChecklist (flushOlB st) of (els, ul, ol, cl) \<Rightarrow> (els, ul @ [ulItem trimmed], ol, cl))
           else if olTest trimmed then
             (case flushChecklist (flushUlB st) of (els, ul, ol, cl) \<Rightarrow> (els, ul, ol @ [olItem trimmed], cl))
           else if startsWith trimmed ''>'' then
             pushB (quoteBlock planEmoji trimmed) (flushChecklist (flushOlB (flushUlB st)))
           else if hrTest trimmed then
             pushB Divider (flushChecklist (flushOlB (flushUlB st)))
           else pushB (Paragraph (renderInline trimmed)) (flushChecklist (flushOlB (flushUlB st)))))"

definition renderBlock :: "string \<Rightarrow> block list" where
  \<comment> \<open>\<open>null\<close> for the empty content is the empty list of elements\<close>
  "renderBlock contentStr =
     (if contentStr = [] then []
      else fst (flushChecklist (flushOlB (flushUlB
             (foldl blockStep ([], [], [], []) (splitOn LF contentStr))))))"

section \<open>The editable plan renderer (components/EditablePlan.tsx)\<close>

definition editEmoji :: "char \<Rightarrow> bool" where
  \<comment> \<open>the class \<open>[\u{1F300}-\u{1FAD6}\u{2600}-\u{27BF}]\<close>\<close>
  "editEmoji c =
     (let n = (of_char c :: int)
      in (0x1F300 \<le> n \<and> n \<le> 0x1FAD6) \<or> (0x2600 \<le> n \<and> n \<le> 0x27BF))"

fun itemCheckMatch :: "string \<Rightarrow> (bool \<times> string) option" where
  \<comment> \<open>\<open>li.match(/^\[([ xX])\] (.+)/)\<close>\<close>
  "itemCheckMatch (c # d # e # f # r) =
     (if c = CHR ''['' \<and> (d = CHR '' '' \<or> d = CHR ''x'' \<or> d = CHR ''X'') \<and> e = CHR '']'' \<and> f = CHR '' ''
      then map_option (\<lambda>t. (d \<noteq> CHR '' '', t)) (dotPlus r) else None)"
| "itemCheckMatch li = None"

definition renderItem :: "string \<Rightarrow> listItem" where
  \<comment> \<open>one \<open>li\<close> of \<open>flushUl\<close>: a check box with its text, or a bullet\<close>
  "renderItem li =
     (case itemCheckMatch li of
        Some (checked, t) \<Rightarrow> CheckItem checked (renderInline t)
      | None \<Rightarrow> Bullet (renderInline li))"

type_synonym contentState = "block list \<times> string list \<times> string list"

fun flushUlC :: "contentState \<Rightarrow> contentState" where
  "flushUlC (elements, ulBuf, olBuf) =
     (if ulBuf = [] then (elements, ulBuf, olBuf)
      else (elements @ [UList (map renderItem ulBuf)], [], olBuf))"

fun flushOlC :: "contentState \<Rightarrow> contentState" where
  "flushOlC (elements, ulBuf, olBuf) =
     (if olBuf = [] then (elements, ulBuf, olBuf)
      else (elements @ [OList (map renderInline olBuf)], ulBuf, []))"

fun pushC :: "block \<Rightarrow> contentState \<Rightarrow> contentState" where
  "pushC b (elements, ulBuf, olBuf) = (elements @ [b], ulBuf, olBuf)"

definition contentStep :: "contentState \<Rightarrow> string \<Rightarrow> contentState" where
  \<comment> \<open>the callback of \<open>lines.forEach\<close> in \<open>ContentRenderer\<close>\<close>
  "contentStep st line =
     (let trimmed = trim line
      in if trimmed = [] then flushOlC (flushUlC st)
         else if ulTest trimmed then
           (case flushOlC st of (els, ul, ol) \<Rightarrow> (els, ul @ [ulItem trimmed], ol))
         else if olTest trimmed then
           (case flushUlC st of (els, ul, ol) \<Rightarrow> (els, ul, ol @ [olItem trimmed]))
         else if startsWith trimmed ''>'' then
           pushC (quoteBlock editEmoji trimmed) (flushOlC (flushUlC st))
         else if hrTest trimmed then pushC Divider (flushOlC (flushUlC st))
         else pushC (Paragraph (renderInline trimmed)) (flushOlC (flushUlC st)))"

definition ContentRenderer :: "string \<Rightarrow> block list" where
  "ContentRenderer contentStr =
     fst (flushOlC (flushUlC (foldl contentStep ([], [], []) (splitOn LF contentStr))))"

subsection \<open>The check box's click handler\<close>

fun replaceBox :: "string \<Rightarrow> string" where
  \<comment> \<open>\<open>l.replace(/\[.\]/, '[ ]')\<close>: the first bracket pair around one character that is not
      a line terminator\<close>
  "replaceBox (a # b # c # r) =
     (if a = CHR ''['' \<and> \<not> isLineTerminator b \<and> c = CHR '']'' then ''[ ]'' @ r
      else a # replaceBox (b # c # r))"
| "replaceBox s = s"

definition checkBox :: "string \<Rightarrow> string" where
  \<comment> \<open>\<open>l.replace('[ ]', '[x]')\<close>: the first occurrence of the empty box\<close>
  "checkBox l =
     (case indexOf l ''[ ]'' of
        None \<Rightarrow> l
      | Some i \<Rightarrow> take i l @ ''[x]'' @ drop (i + 3) l)"

definition toggleLine :: "string \<Rightarrow> string \<Rightarrow> string" where
  \<comment> \<open>the function mapped over the lines by \<open>onClick\<close>, for the check box with text \<open>t\<close>\<close>
  "toggleLine t l =
     (if trim l = ''- [x] '' @ t \<or> trim l = ''- [X] '' @ t then replaceBox l
      else if trim l = ''- [ ] '' @ t then checkBox l
      else l)"

definition toggleCheck :: "string \<Rightarrow> string \<Rightarrow> string" where
  \<comment> \<open>the value \<open>updated\<close> handed to \<open>onCheckToggle\<close>\<close>
  "toggleCheck contentStr t = joinWith [LF] (map (toggleLine t) (splitOn LF contentStr))"

definition checkBoxText :: "string \<Rightarrow> string option" where
  \<comment> \<open>the text of the check box that \<open>ContentRenderer\<close> shows for a line, if it shows one:
      the line goes to \<open>ulBuf\<close> and its item passes \<open>itemCheckMatch\<close>\<close>
  "checkBoxText line =
     (let trimmed = trim line
      in if trimmed \<noteq> [] \<and> ulTest trimmed then map_option snd (itemCheckMatch (ulItem trimmed))
         else None)"

definition leadingSpace :: "string \<Rightarrow> string" where
  \<comment> \<open>the white space that \<open>trim\<close> removes in front\<close>
  "leadingSpace l = takeWhile isWhiteSpace l"

definition trailingSpace :: "string \<Rightarrow> string" where
  \<comment> \<open>the white space that \<open>trim\<close> removes at the end\<close>
  "trailingSpace l = rev (takeWhile isWhiteSpace (rev (trimStart l)))"

subsection \<open>Lines on which the three renderers agree\<close>

definition plainLine :: "string \<Rightarrow> bool" where
  \<comment> \<open>a line that is no checklist item for either plan renderer, no divider and no emoji
      callout\<close>
  "plainLine l =
     (let t = trim l
      in checkMatch t = None \<and> (\<not> ulTest t \<or> itemCheckMatch (ulItem t) = None) \<and> \<not> hrTest t
         \<and> (\<not> startsWith t ''>'' \<or>
              (emojiMatch planEmoji (quoteText t) = None \<and> emojiMatch editEmoji (quoteText t) = None)))"

definition noCheckItems :: "string list \<Rightarrow> bool" where
  \<comment> \<open>no pending list item would be shown as a check box\<close>
  "noCheckItems us = list_all (\<lambda>li. itemCheckMatch li = None) us"

section \<open>The tool update_frontmatter (mcp/server.mjs)\<close>

definition hexDigit :: "nat \<Rightarrow> char" where
  "hexDigit d = (if d < 10 then char_of (48 + d) else char_of (87 + d))"

definition jsonEscape :: "char \<Rightarrow> string" where
  \<comment> \<open>one character of a string under \<open>JSON.stringify\<close>\<close>
  "jsonEscape c =
     (if c = DQ then [BSLASH, DQ]
      else if c = BSLASH then [BSLASH, BSLASH]
      else if c = CHR 0x08 then [BSLASH, CHR ''b'']
      else if c = CHR 0x0C then [BSLASH, CHR ''f'']
      else if c = CHR 0x0A then [BSLASH, CHR ''n'']
      else if c = CHR 0x0D then [BSLASH, CHR ''r'']
      else if c = CHR 0x09 then [BSLASH, CHR ''t'']
      else if (of_char c :: nat) < 32
        then [BSLASH, CHR ''u'', CHR ''0'', CHR ''0'',
              hexDigit ((of_char c :: nat) div 16), hexDigit ((of_char c :: nat) mod 16)]
      else [c])"

definition jsonQuote :: "string \<Rightarrow> string" where
  "jsonQuote s = [DQ] @ concat (map jsonEscape s) @ [DQ]"

fun jsonStringify :: "jsval \<Rightarrow> string option" where
  \<comment> \<open>\<open>JSON.stringify(v)\<close>, with \<open>None\<close> for the result \<open>undefined\<close>\<close>
  "jsonStringify JUndefined = None"
| "jsonStringify JNull = Some ''null''"
| "jsonStringify (JBool b) = Some (if b then ''true'' else ''false'')"
| "jsonStringify (JNum t) = Some t"
| "jsonStringify (JStr s) = Some (jsonQuote s)"
| "jsonStringify (JArr xs) =
     Some (''['' @ joinWith '','' (map (\<lambda>x. case jsonStringify x of None \<Rightarrow> ''null'' | Some t \<Rightarrow> t) xs) @ '']'')"
| "jsonStringify (JObj fs) =
     Some (''{'' @ joinWith '',''
             (concat (map (\<lambda>kv. case jsonStringify (snd kv) of
                                   None \<Rightarrow> []
                                 | Some t \<Rightarrow> [jsonQuote (fst kv) @ '':'' @ t]) fs)) @ ''}'')"

fun expandReplacement :: "string \<Rightarrow> string \<Rightarrow> string \<Rightarrow> string \<Rightarrow> string" where
  \<comment> \<open>the replacement text of \<open>String.prototype.replace\<close> when the pattern has no capture
      group: \<open>$$\<close> is a dollar sign, \<open>$&\<close> the matched text, \<open>$`\<close> the text before the match,
      \<open>$'\<close> the text after it; every other character stands for itself\<close>
  "expandReplacement matched preceding following (c # d # r) =
     (if c = CHR ''$'' \<and> d = CHR ''$'' then CHR ''$'' # expandReplacement matched preceding following r
      else if c = CHR ''$'' \<and> d = CHR ''&'' then matched @ expandReplacement matched preceding following r
      else if c = CHR ''$'' \<and> d = CHR 0x60 then preceding @ expandReplacement matched preceding following r
      else if c = CHR ''$'' \<and> d = CHR 0x27 then following @ expandReplacement matched preceding following r
      else c # expandReplacement matched preceding following (d # r))"
| "expandReplacement matched preceding following r = r"

definition replaceAt :: "string \<Rightarrow> nat \<Rightarrow> nat \<Rightarrow> string \<Rightarrow> string" where
  \<comment> \<open>the result of \<open>replace\<close> for a match of \<open>n\<close> characters at position \<open>i\<close>\<close>
  "replaceAt s i n replacement =
     take i s
     @ expandReplacement (take n (drop i s)) (take i s) (drop (i + n) s) replacement
     @ drop (i + n) s"

definition replaceString :: "string \<Rightarrow> string \<Rightarrow> string \<Rightarrow> string" where
  \<comment> \<open>\<open>s.replace(pattern, replacement)\<close> for a string pattern: its first occurrence\<close>
  "replaceString s pattern replacement =
     (case indexOf s pattern of
        None \<Rightarrow> s
      | Some i \<Rightarrow> replaceAt s i (length pattern) replacement)"

fun findKeyLineFrom :: "string \<Rightarrow> bool \<Rightarrow> string \<Rightarrow> nat \<Rightarrow> (nat \<times> nat) option" where
  \<comment> \<open>the first match of \<open>new RegExp(`^${key}:.*$`, 'm')\<close> for a key of word characters:
      at a line start, the key and a colon, then all characters up to the next line
      terminator; its position and length\<close>
  "findKeyLineFrom key bol [] i = None"
| "findKeyLineFrom key bol (c # cs) i =
     (if bol \<and> startsWith (c # cs) (key @ '':'')
      then Some (i, length key + 1
                    + length (takeWhile (\<lambda>x. \<not> isLineTerminator x) (drop (length key + 1) (c # cs))))
      else findKeyLineFrom key (isLineTerminator c) cs (Suc i))"

definition findKeyLine :: "string \<Rightarrow> string \<Rightarrow> (nat \<times> nat) option" where
  "findKeyLine key fmBlock = findKeyLineFrom key True fmBlock 0"

definition templateText :: "string option \<Rightarrow> string" where
  \<comment> \<open>\<open>${x}\<close> for a string or \<open>undefined\<close>\<close>
  "templateText x = (case x of None \<Rightarrow> ''undefined'' | Some t \<Rightarrow> t)"

fun serializedField :: "jsval \<Rightarrow> string" where
  \<comment> \<open>\<open>typeof value === 'string' ? `"${value}"` : JSON.stringify(value)\<close>, as the template
      prints it\<close>
  "serializedField (JStr s) = [DQ] @ s @ [DQ]"
| "serializedField v = templateText (jsonStringify v)"

fun arrayElement :: "jsval \<Rightarrow> string" where
  \<comment> \<open>one element of \<open>yamlArr\<close>; \<open>join\<close> prints \<open>undefined\<close> as the empty string\<close>
  "arrayElement (JStr s) = [DQ] @ s @ [DQ]"
| "arrayElement v = (case jsonStringify v of None \<Rightarrow> [] | Some t \<Rightarrow> t)"

definition yamlArr :: "jsval list \<Rightarrow> string" where
  "yamlArr vs = ''['' @ joinWith '', '' (map arrayElement vs) @ '']''"

datatype updateResult =
    InvalidFilename
  | FileNotFound
  | NoFrontmatter
  | UnsupportedKey string
  | Written string "string list"

fun updateFields :: "string \<Rightarrow> string list \<Rightarrow> (string \<times> jsval) list \<Rightarrow> string + (string \<times> string list)" where
  \<comment> \<open>the loop over \<open>Object.entries(fields)\<close>, threading \<open>fmBlock\<close> and \<open>updated\<close>. A key
      with a character other than a word character makes a regular expression that is
      outside the model (\<open>Inl key\<close>).\<close>
  "updateFields fmBlock updated [] = Inr (fmBlock, updated)"
| "updateFields fmBlock updated ((key, v) # rest) =
     (if \<not> list_all isWordChar key then Inl key
      else (case findKeyLine key fmBlock of
              None \<Rightarrow> updateFields fmBlock updated rest
            | Some (i, n) \<Rightarrow>
                updateFields
                  (replaceAt fmBlock i n
                     (key @ '': '' @ (if isArray v then yamlArr (elems v) else serializedField v)))
                  (updated @ [key]) rest))"

definition update_frontmatter :: "string \<Rightarrow> bool \<Rightarrow> string \<Rightarrow> (string \<times> jsval) list \<Rightarrow> updateResult" where
  \<comment> \<open>the handler, given the file name, whether the file exists, and its content \<open>raw\<close>:
      the content written and the keys reported\<close>
  "update_frontmatter filename fileExists raw fieldMap =
     (if \<not> isSafeFilename filename then InvalidFilename
      else if \<not> fileExists then FileNotFound
      else (case matchFrontmatter raw of
              None \<Rightarrow> NoFrontmatter
            | Some block \<Rightarrow>
                (case updateFields block [] fieldMap of
                   Inl key \<Rightarrow> UnsupportedKey key
                 | Inr (fmBlock, updated) \<Rightarrow> Written (replaceString raw block fmBlock) updated)))"

section \<open>Facts about the string operations\<close>

lemma startsWith_iff: "startsWith s p \<longleftrightarrow> (\<exists>v. s = p @ v)"
  unfolding startsWith_def
  by (metis append_eq_conv_conj append_take_drop_id)

lemma indexOfFrom_Some:
  "indexOfFrom p s i = Some j \<Longrightarrow> \<exists>u v. s = u @ p @ v \<and> j = i + length u"
proof (induction s arbitrary: i)
  case Nil
  then show ?case by (auto split: if_splits)
next
  case (Cons c cs)
  show ?case
  proof (cases "startsWith (c # cs) p")
    case True
    then obtain v where "c # cs = p @ v" by (auto simp: startsWith_iff)
    moreover from Cons.prems True have "j = i" by simp
    ultimately have "c # cs = [] @ p @ v \<and> j = i + length ([]::string)" by simp
    then show ?thesis by blast
  next
    case False
    with Cons.prems have "indexOfFrom p cs (Suc i) = Some j" by simp
    from Cons.IH[OF this] obtain u v where "cs = u @ p @ v" "j = Suc i + length u" by blast
    then have "c # cs = (c # u) @ p @ v \<and> j = i + length (c # u)" by simp
    then show ?thesis by blast
  qed
qed

lemma indexOfFrom_None:
  "indexOfFrom p s i = None \<Longrightarrow> s \<noteq> u @ p @ v"
proof (induction s arbitrary: i u)
  case Nil
  then show ?case by (auto split: if_splits)
next
  case (Cons c cs)
  have ns: "\<not> startsWith (c # cs) p" and rec: "indexOfFrom p cs (Suc i) = None"
    using Cons.prems by (auto split: if_splits)
  show ?case
  proof (cases u)
    case Nil
    with ns show ?thesis by (auto simp: startsWith_iff)
  next
    case (Cons a u')
    with Cons.IH[OF rec, of u'] show ?thesis by auto
  qed
qed

lemma includesStr_iff: "includesStr s p \<longleftrightarrow> (\<exists>u v. s = u @ p @ v)"
  unfolding includesStr_def indexOf_def
  by (metis indexOfFrom_None indexOfFrom_Some not_Some_eq)

lemma trim_last_not_space: "trim s = [] \<or> \<not> isWhiteSpace (last (trim s))"
proof (cases "trim s = []")
  case True
  then show ?thesis by simp
next
  case False
  let ?r = "dropWhile isWhiteSpace (rev (trimStart s))"
  from False have ne: "?r \<noteq> []" by (simp add: trim_def trimEnd_def)
  have "last (trim s) = hd ?r" using ne by (simp add: trim_def trimEnd_def last_rev)
  moreover have "\<not> isWhiteSpace (hd ?r)" using ne by (rule hd_dropWhile)
  ultimately show ?thesis by simp
qed

lemma includesStr_Cons:
  "\<not> includesStr (c # cs) p \<Longrightarrow> \<not> startsWith (c # cs) p \<and> \<not> includesStr cs p"
  unfolding includesStr_iff startsWith_iff
  by (metis append_Cons append_Nil)

lemma indexOf_delimiter:
  "\<not> includesStr fm (LF # ''---'') \<Longrightarrow>
     indexOfFrom (LF # ''---'') (fm @ LF # ''---'' @ rest) i = Some (i + length fm)"
proof (induction fm arbitrary: i)
  case Nil
  then show ?case by (simp add: startsWith_def)
next
  case (Cons c cs)
  from includesStr_Cons[OF Cons.prems]
  have ns: "\<not> startsWith (c # cs) (LF # ''---'')" and rec: "\<not> includesStr cs (LF # ''---'')"
    by simp_all
  have shape: "cs = [] \<or> (\<exists>a. cs = [a]) \<or> (\<exists>a b. cs = [a, b]) \<or> (\<exists>a b d e. cs = a # b # d # e)"
    by (metis list.exhaust)
  have "\<not> startsWith ((c # cs) @ LF # ''---'' @ rest) (LF # ''---'')"
    using shape ns by (auto simp: startsWith_def LF_def)
  then show ?case using Cons.IH[OF rec, of "Suc i"] by simp
qed

lemma matchFrontmatter_assembled:
  assumes "\<not> includesStr fm (LF # ''---'')"
  shows "matchFrontmatter (''---'' @ [LF] @ fm @ [LF] @ ''---'' @ rest) = Some fm"
proof -
  have "indexOf (fm @ LF # ''---'' @ rest) (LF # ''---'') = Some (length fm)"
    unfolding indexOf_def using indexOf_delimiter[OF assms, of rest 0] by simp
  then show ?thesis
    by (simp add: matchFrontmatter_def startsWith_def)
qed

lemma indexOfFrom_at_most:
  "\<exists>j. indexOfFrom p (u @ p @ v) i = Some (i + j) \<and> j \<le> length u"
proof (induction u arbitrary: i)
  case Nil
  have "indexOfFrom p (p @ v) i = Some i"
  proof (cases "p @ v")
    case Nil
    then show ?thesis by simp
  next
    case (Cons a l)
    have "startsWith (p @ v) p" by (simp add: startsWith_def)
    then show ?thesis unfolding Cons by simp
  qed
  then show ?case by simp
next
  case (Cons c u)
  show ?case
  proof (cases "startsWith (c # u @ p @ v) p")
    case True
    then have "indexOfFrom p ((c # u) @ p @ v) i = Some (i + 0)" by simp
    then show ?thesis by blast
  next
    case False
    from Cons[of "Suc i"] obtain j where "indexOfFrom p (u @ p @ v) (Suc i) = Some (Suc i + j)" "j \<le> length u"
      by blast
    with False have "indexOfFrom p ((c # u) @ p @ v) i = Some (i + Suc j) \<and> Suc j \<le> length (c # u)"
      by simp
    then show ?thesis by blast
  qed
qed

section \<open>The encoder: accumulator loop against field-by-field output\<close>

lemma error_TypeError: "(e :: error) = TypeError"
  by (cases e) simp

lemma collect_all:
  "collect xs = (if list_all (\<lambda>x. \<not> isl x) xs then Inr (map projr xs) else Inl TypeError)"
proof (induction xs)
  case Nil
  then show ?case by simp
next
  case (Cons x xs)
  then show ?case by (cases x) (simp_all add: error_TypeError)
qed

lemma toString_printable:
  "toString v = (if printable v then Inr (printedText v) else Inl TypeError)"
proof -
  have "(printable v \<longrightarrow> \<not> isl (toString v)) \<and> (\<not> printable v \<longrightarrow> toString v = Inl TypeError)"
  proof (induction v)
    case (JArr xs)
    have "(\<not> isl (if x = JUndefined \<or> x = JNull then Inr [] else toString x)) = printable x"
      if "x \<in> set xs" for x
      using JArr[OF that] by auto
    then have "list_all (\<lambda>x. \<not> isl x) (map (\<lambda>x. if x = JUndefined \<or> x = JNull then Inr [] else toString x) xs)
            = list_all printable xs"
      by (induction xs) simp_all
    then show ?case by (simp add: collect_all)
  qed simp_all
  then show ?thesis by (cases "toString v") (auto simp: printedText_def error_TypeError)
qed

lemma serializeYamlValue_printable:
  "serializeYamlValue v = (if printable v then Inr (scalarText v) else Inl TypeError)"
proof (cases v)
  case (JStr s)
  then show ?thesis by (simp add: scalarText_def)
qed (simp_all add: scalarText_def toString_printable)

lemma getProp_field: "\<not> nullish m \<Longrightarrow> getProp m k = Inr (field m k)"
  by (cases m) (simp_all add: nullish_def field_def)

lemma milestoneLines_record:
  "milestoneLines m = (if encodableRecord m then Inr (recordBlock m) else Inl TypeError)"
proof (cases "nullish m")
  case True
  then show ?thesis by (auto simp: milestoneLines.simps nullish_def encodableRecord_def)
next
  case False
  then show ?thesis
    by (simp add: milestoneLines.simps getProp_field serializeYamlValue_printable toString_printable
        encodableRecord_def recordBlock_def)
qed

lemma pushMilestones_records:
  "pushMilestones lines ms =
     (if list_all encodableRecord ms then Inr (lines @ concat (map recordBlock ms)) else Inl TypeError)"
  by (induction ms arbitrary: lines) (simp_all add: milestoneLines_record)

lemma tagsLine_tags:
  "tagsLine ts = (if list_all printable ts then Inr (tagsText ts) else Inl TypeError)"
proof -
  have "list_all (\<lambda>x. \<not> isl x) (map toString ts) = list_all printable ts"
    by (induction ts) (simp_all add: toString_printable)
  moreover have "list_all printable ts \<Longrightarrow>
      map (\<lambda>t. [DQ] @ t @ [DQ]) (map projr (map toString ts)) = map (\<lambda>t. [DQ] @ printedText t @ [DQ]) ts"
    by (induction ts) (simp_all add: toString_printable)
  ultimately show ?thesis
    by (simp add: tagsLine_def tagsText_def collect_all del: map_map)
qed

lemma buildLines_fields:
  "buildLines lines data =
     (if list_all encodable data then Inr (lines @ concat (map encodeField data)) else Inl TypeError)"
proof (induction data arbitrary: lines)
  case Nil
  then show ?case by simp
next
  case (Cons e data)
  obtain key v where e: "e = (key, v)" by (cases e)
  show ?case
  proof (cases "key = ''milestones'' \<and> isArray v")
    case True
    then have "encodable (key, v) = list_all encodableRecord (elems v)"
      and "encodeField (key, v) = ''milestones:'' # concat (map recordBlock (elems v))"
      by (simp_all add: encodable_def encodeField_def)
    with True show ?thesis
      by (simp add: e Cons.IH pushMilestones_records)
  next
    case nm: False
    show ?thesis
    proof (cases "key = ''tags'' \<and> isArray v")
      case True
      with nm have "encodable (key, v) = list_all printable (elems v)"
        and "encodeField (key, v) = [tagsText (elems v)]"
        by (auto simp: encodable_def encodeField_def)
      with nm True show ?thesis
        by (simp add: e Cons.IH tagsLine_tags)
    next
      case False
      with nm have en: "encodable (key, v) = printable v"
        and ef: "encodeField (key, v) = (if nullish v then [] else [key @ '': '' @ scalarText v])"
        by (auto simp: encodable_def encodeField_def)
      have pn: "nullish v \<Longrightarrow> printable v" by (auto simp: nullish_def)
      from nm False show ?thesis
        using pn by (cases "nullish v")
          (auto simp: e en ef Cons.IH serializeYamlValue_printable nullish_def)
    qed
  qed
qed

lemma buildFrontmatter_fields:
  "buildFrontmatter data =
     (if list_all encodable data then Inr (joinWith [LF] (concat (map encodeField data)))
      else Inl TypeError)"
  by (simp add: buildFrontmatter_def buildLines_fields)

section \<open>Facts about the reader and the scalar lines\<close>





lemma splitOn_nonempty: "splitOn d s \<noteq> []"
  by (induction s) (auto split: list.splits)

lemma splitOn_no_sep: "d \<notin> set l \<Longrightarrow> splitOn d l = [l]"
  by (induction l) auto

lemma splitOn_append_sep: "d \<notin> set l \<Longrightarrow> splitOn d (l @ d # rest) = l # splitOn d rest"
  by (induction l) (auto split: list.splits)

lemma splitOn_joinWith:
  "lines \<noteq> [] \<Longrightarrow> list_all (\<lambda>l. d \<notin> set l) lines \<Longrightarrow> splitOn d (joinWith [d] lines) = lines"
proof (induction "[d]" lines rule: joinWith.induct)
  case 1
  then show ?case by simp
next
  case (2 x)
  then show ?case by (simp add: splitOn_no_sep)
next
  case (3 x y ys)
  then show ?case by (simp add: splitOn_append_sep)
qed

lemma joinWith_splitOn: "joinWith [d] (splitOn d s) = s"
proof (induction s)
  case Nil
  then show ?case by simp
next
  case (Cons c cs)
  obtain l ls where sp: "splitOn d cs = l # ls" using splitOn_nonempty by (cases "splitOn d cs") auto
  with Cons show ?case by (cases ls) auto
qed

lemma isNumChar_plain:
  "isNumChar c \<Longrightarrow> \<not> isWhiteSpace c \<and> c \<noteq> DQ \<and> c \<noteq> LF"
  by (auto simp: isNumChar_def isDigit_def isWhiteSpace_def LF_def)

lemma escape_plain:
  "list_all (\<lambda>c. c \<noteq> DQ \<and> c \<noteq> BSLASH \<and> \<not> isLineTerminator c) s \<Longrightarrow>
     escapeQuotes (escapeBackslashes s) = s"
  by (induction s) (auto simp: escapeQuotes_def escapeBackslashes_def)






lemma serialize_no_LF:
  assumes "plainScalar v"
  shows "LF \<notin> set (scalarText v)"
proof (cases v)
  case (JStr s)
  with assms have pl: "list_all (\<lambda>c. c \<noteq> DQ \<and> c \<noteq> BSLASH \<and> \<not> isLineTerminator c) s" by simp
  then have "LF \<notin> set s" by (auto simp: list_all_iff isLineTerminator_def LF_def)
  then show ?thesis using JStr by (simp add: scalarText_def escape_plain[OF pl] LF_def)
next
  case (JBool b)
  then show ?thesis by (simp add: scalarText_def LF_def)
next
  case (JNum t)
  with assms have "list_all isNumChar t" by (simp add: numberText_def)
  then show ?thesis using JNum by (auto simp: scalarText_def list_all_iff dest: isNumChar_plain)
qed (use assms in simp_all)


lemma no_LF_not_includes: "LF \<notin> set x \<Longrightarrow> \<not> includesStr x (LF # p)"
  by (auto simp: includesStr_iff)

lemma joinWith_head:
  "lines \<noteq> [] \<Longrightarrow> \<exists>r. joinWith [LF] lines = hd lines @ r \<and> (r = [] \<or> hd r = LF)"
  by (induction "[LF]" lines rule: joinWith.induct) auto

lemma startsWith_dashes_append:
  assumes "\<not> startsWith y ''---''" "r = [] \<or> hd r \<noteq> CHR ''-''"
  shows "\<not> startsWith (y @ r) ''---''"
proof -
  have shape: "y = [] \<or> (\<exists>a. y = [a]) \<or> (\<exists>a b. y = [a, b]) \<or> (\<exists>a b d e. y = a # b # d # e)"
    by (metis list.exhaust)
  show ?thesis
    using shape assms by (cases r) (auto simp: startsWith_def)
qed

lemma joinWith_no_delim:
  "list_all (\<lambda>l. LF \<notin> set l \<and> \<not> startsWith l ''---'') lines \<Longrightarrow>
     \<not> includesStr (joinWith [LF] lines) (LF # ''---'')"
proof (induction "[LF]" lines rule: joinWith.induct)
  case 1
  then show ?case by (simp add: includesStr_def indexOf_def)
next
  case (2 x)
  then show ?case by (simp add: no_LF_not_includes)
next
  case (3 x y ys)
  let ?J = "joinWith [LF] (y # ys)"
  from 3 have x: "LF \<notin> set x" and y: "\<not> startsWith y ''---''"
    and IH: "\<not> includesStr ?J (LF # ''---'')" by simp_all
  obtain r where r: "?J = y @ r" "r = [] \<or> hd r = LF"
    using joinWith_head[of "y # ys"] by auto
  have nJ: "\<not> startsWith ?J ''---''"
    unfolding r(1) using y r(2) by (intro startsWith_dashes_append) (auto simp: LF_def)
  show ?case
  proof
    assume "includesStr (joinWith [LF] (x # y # ys)) (LF # ''---'')"
    then obtain u v where uv: "x @ LF # ?J = u @ (LF # ''---'') @ v"
      by (auto simp: includesStr_iff)
    then obtain w where w:
      "(x = u @ w \<and> w @ LF # ?J = (LF # ''---'') @ v) \<or> (x @ w = u \<and> LF # ?J = w @ (LF # ''---'') @ v)"
      unfolding append_eq_append_conv2 by blast
    show False
    proof (cases w)
      case Nil
      with w have "?J = ''---'' @ v" by auto
      then have "startsWith ?J ''---''" unfolding startsWith_iff by blast
      with nJ show False by simp
    next
      case (Cons a w')
      from w show False
      proof
        assume "x = u @ w \<and> w @ LF # ?J = (LF # ''---'') @ v"
        with Cons have "a = LF" "a \<in> set x" by auto
        with x show False by simp
      next
        assume "x @ w = u \<and> LF # ?J = w @ (LF # ''---'') @ v"
        with Cons have "?J = w' @ (LF # ''---'') @ v" by simp
        then have "includesStr ?J (LF # ''---'')" unfolding includesStr_iff by blast
        with IH show False by simp
      qed
    qed
  qed
qed


lemma headerLine_shape:
  assumes "plainKey k" "plainScalar v"
  shows "LF \<notin> set (headerLine (k, v)) \<and> \<not> startsWith (headerLine (k, v)) ''---''"
proof -
  have "\<not> startsWith (k @ ('': '' @ scalarText v)) ''---''"
    using assms(1) by (intro startsWith_dashes_append) (simp_all add: plainKey_def)
  moreover have "LF \<notin> set (headerLine (k, v))"
    using assms serialize_no_LF[OF assms(2)] by (simp add: headerLine_def plainKey_def LF_def)
  ultimately show ?thesis by (simp add: headerLine_def)
qed

lemma plainScalar_encodeField:
  "plainScalar v \<Longrightarrow> encodable (k, v) \<and> encodeField (k, v) = [headerLine (k, v)]"
  by (cases v) (simp_all add: encodable_def encodeField_def headerLine_def nullish_def)

lemma buildFrontmatter_plain:
  assumes "list_all plainScalar (map snd H)"
  shows "buildFrontmatter H = Inr (joinWith [LF] (map headerLine H))"
proof -
  have "list_all encodable H \<and> concat (map encodeField H) = map headerLine H"
    using assms
  proof (induction H)
    case Nil
    then show ?case by simp
  next
    case (Cons e H)
    obtain k v where e: "e = (k, v)" by (cases e)
    with Cons show ?case using plainScalar_encodeField[of v k] by simp
  qed
  then show ?thesis by (simp add: buildFrontmatter_fields)
qed

lemma headerLines_no_delim:
  assumes "list_all plainKey (map fst H)" "list_all plainScalar (map snd H)"
  shows "\<not> includesStr (joinWith [LF] (map headerLine H)) (LF # ''---'')"
proof -
  have "list_all (\<lambda>l. LF \<notin> set l \<and> \<not> startsWith l ''---'') (map headerLine H)"
    using assms
  proof (induction H)
    case Nil
    then show ?case by simp
  next
    case (Cons a H)
    then show ?case using headerLine_shape[of "fst a" "snd a"] by simp
  qed
  then show ?thesis by (rule joinWith_no_delim)
qed



section \<open>Facts about trimming and the check box handler\<close>

lemma trim_decomp: "leadingSpace l @ trim l @ trailingSpace l = l"
proof -
  have "trimStart l = trim l @ trailingSpace l"
    unfolding trim_def trimEnd_def trailingSpace_def
    by (metis rev_append rev_rev_ident takeWhile_dropWhile_id)
  then show ?thesis
    unfolding leadingSpace_def by (metis takeWhile_dropWhile_id trimStart_def)
qed

lemma leadingSpace_ws: "list_all isWhiteSpace (leadingSpace l)"
  by (simp add: leadingSpace_def list_all_iff) (meson set_takeWhileD)

lemma trailingSpace_ws: "list_all isWhiteSpace (trailingSpace l)"
  by (simp add: trailingSpace_def list_all_iff) (meson set_takeWhileD)

lemma trim_sandwich:
  assumes "list_all isWhiteSpace w1" "list_all isWhiteSpace w2" "s \<noteq> []"
    "\<not> isWhiteSpace (hd s)" "\<not> isWhiteSpace (last s)"
  shows "trim (w1 @ s @ w2) = s"
proof -
  obtain x xs where s: "s = x # xs" using assms(3) by (cases s) auto
  have a: "trimStart (w1 @ s @ w2) = s @ w2"
    using assms(1,4) unfolding trimStart_def s
    by (induction w1) auto
  have "dropWhile isWhiteSpace (rev w2 @ rev s) = rev s"
    using assms(2,3,5)
    by (induction w2 rule: rev_induct) (auto simp: dropWhile_eq_self_iff hd_rev)
  then show ?thesis by (simp add: trim_def a trimEnd_def)
qed

lemma replaceBox_skip: "a \<noteq> CHR ''['' \<Longrightarrow> 2 \<le> length s \<Longrightarrow> replaceBox (a # s) = a # replaceBox s"
proof -
  assume a: "a \<noteq> CHR ''[''" and "2 \<le> length s"
  then obtain b c r where "s = b # c # r"
    by (cases s; simp) (metis Suc_le_length_iff numeral_2_eq_2 One_nat_def list.exhaust list.size(3) not_less_eq_eq le_zero_eq)
  with a show ?thesis by simp
qed


lemma replaceBox_line:
  assumes "list_all isWhiteSpace w" "\<not> isLineTerminator b"
  shows "replaceBox (w @ ''- ['' @ [b] @ ''] '' @ r) = w @ ''- [ ] '' @ r"
  using assms(1)
proof (induction w)
  case Nil
  show ?case using assms(2) by simp
next
  case (Cons a w)
  then have "a \<noteq> CHR ''[''" by (auto simp: isWhiteSpace_def)
  then have "replaceBox (a # (w @ ''- ['' @ [b] @ ''] '' @ r)) = a # replaceBox (w @ ''- ['' @ [b] @ ''] '' @ r)"
    by (rule replaceBox_skip) simp
  with Cons show ?case by simp
qed

lemma indexOfFrom_first:
  "p \<noteq> [] \<Longrightarrow> hd p \<notin> set u \<Longrightarrow> indexOfFrom p (u @ p @ v) i = Some (i + length u)"
proof (induction u arbitrary: i)
  case Nil
  have "startsWith (p @ v) p" unfolding startsWith_iff by blast
  with Nil show ?case by (cases "p @ v") auto
next
  case (Cons a u)
  then have "\<not> startsWith (a # u @ p @ v) p" by (cases p) (auto simp: startsWith_def)
  with Cons show ?case by simp
qed

lemma checkBox_line:
  assumes "list_all isWhiteSpace w"
  shows "checkBox (w @ ''- [ ] '' @ r) = w @ ''- [x] '' @ r"
proof -
  have "CHR ''['' \<notin> set (w @ ''- '')"
    using assms by (induction w) (auto simp: isWhiteSpace_def)
  then have "indexOfFrom ''[ ]'' ((w @ ''- '') @ ''[ ]'' @ ('' '' @ r)) 0 = Some (0 + length (w @ ''- ''))"
    by (intro indexOfFrom_first) simp_all
  then have "indexOf (w @ ''- [ ] '' @ r) ''[ ]'' = Some (length w + 2)"
    by (simp add: indexOf_def)
  then show ?thesis by (simp add: checkBox_def)
qed

lemma trimmed_line_shape:
  assumes "trim l = pre @ t" "pre \<noteq> []" "isWhiteSpace (last pre)" "\<not> isWhiteSpace (hd pre)"
  shows "t \<noteq> [] \<and> \<not> isWhiteSpace (last t) \<and> leadingSpace l @ pre @ t @ trailingSpace l = l"
proof -
  have "t \<noteq> []"
  proof
    assume "t = []"
    with assms(1,2,3) have "trim l \<noteq> []" "isWhiteSpace (last (trim l))" by simp_all
    with trim_last_not_space[of l] show False by simp
  qed
  moreover have "\<not> isWhiteSpace (last t)"
    using trim_last_not_space[of l] \<open>t \<noteq> []\<close> assms(1) by simp
  moreover have "leadingSpace l @ pre @ t @ trailingSpace l = l"
    using trim_decomp[of l] assms(1) by simp
  ultimately show ?thesis by simp
qed

lemma toggleLine_unchecked:
  assumes "trim l = ''- [ ] '' @ t"
  shows "toggleLine t l = leadingSpace l @ ''- [x] '' @ t @ trailingSpace l"
    and "trim (toggleLine t l) = ''- [x] '' @ t"
proof -
  from trimmed_line_shape[OF assms] have t: "t \<noteq> []" "\<not> isWhiteSpace (last t)"
    and l: "leadingSpace l @ ''- [ ] '' @ t @ trailingSpace l = l"
    by (simp_all add: isWhiteSpace_def)
  have "toggleLine t l = checkBox l" using assms by (simp add: toggleLine_def)
  also have "\<dots> = checkBox (leadingSpace l @ ''- [ ] '' @ (t @ trailingSpace l))" using l by simp
  also have "\<dots> = leadingSpace l @ ''- [x] '' @ (t @ trailingSpace l)"
    by (rule checkBox_line) (rule leadingSpace_ws)
  finally show a: "toggleLine t l = leadingSpace l @ ''- [x] '' @ t @ trailingSpace l" by simp
  have "trim (leadingSpace l @ (''- [x] '' @ t) @ trailingSpace l) = ''- [x] '' @ t"
    using t by (intro trim_sandwich leadingSpace_ws trailingSpace_ws) (simp_all add: isWhiteSpace_def)
  then show "trim (toggleLine t l) = ''- [x] '' @ t" by (simp add: a)
qed

lemma toggleLine_checked:
  assumes "trim l = ''- ['' @ [b] @ ''] '' @ t" "b = CHR ''x'' \<or> b = CHR ''X''"
  shows "toggleLine t l = leadingSpace l @ ''- [ ] '' @ t @ trailingSpace l"
    and "trim (toggleLine t l) = ''- [ ] '' @ t"
proof -
  have pre: "trim l = (''- ['' @ [b] @ ''] '') @ t" using assms(1) by simp
  from trimmed_line_shape[OF pre] have t: "t \<noteq> []" "\<not> isWhiteSpace (last t)"
    and l: "leadingSpace l @ ''- ['' @ [b] @ ''] '' @ t @ trailingSpace l = l"
    by (simp_all add: isWhiteSpace_def)
  have nb: "\<not> isLineTerminator b" using assms(2) by (auto simp: isLineTerminator_def)
  have "toggleLine t l = replaceBox l" using assms by (auto simp: toggleLine_def)
  also have "\<dots> = replaceBox (leadingSpace l @ ''- ['' @ [b] @ ''] '' @ (t @ trailingSpace l))"
    using l by simp
  also have "\<dots> = leadingSpace l @ ''- [ ] '' @ (t @ trailingSpace l)"
    using leadingSpace_ws nb by (rule replaceBox_line)
  finally show a: "toggleLine t l = leadingSpace l @ ''- [ ] '' @ t @ trailingSpace l" by simp
  have "trim (leadingSpace l @ (''- [ ] '' @ t) @ trailingSpace l) = ''- [ ] '' @ t"
    using t by (intro trim_sandwich leadingSpace_ws trailingSpace_ws) (simp_all add: isWhiteSpace_def)
  then show "trim (toggleLine t l) = ''- [ ] '' @ t" by (simp add: a)
qed

lemma toggleLine_other:
  "trim l \<noteq> ''- [ ] '' @ t \<Longrightarrow> trim l \<noteq> ''- [x] '' @ t \<Longrightarrow> trim l \<noteq> ''- [X] '' @ t \<Longrightarrow> toggleLine t l = l"
  by (simp add: toggleLine_def)

lemma toggleLine_twice:
  assumes "trim l \<noteq> ''- [X] '' @ t"
  shows "toggleLine t (toggleLine t l) = l"
proof -
  consider "trim l = ''- [ ] '' @ t" | "trim l = ''- [x] '' @ t"
    | "trim l \<noteq> ''- [ ] '' @ t" "trim l \<noteq> ''- [x] '' @ t"
    by blast
  then show ?thesis
  proof cases
    case 1
    let ?l' = "toggleLine t l"
    have tr: "trim ?l' = ''- ['' @ ''x'' @ ''] '' @ t" using toggleLine_unchecked(2)[OF 1] by simp
    have eq: "?l' = leadingSpace l @ ''- [x] '' @ t @ trailingSpace l" by (rule toggleLine_unchecked(1)[OF 1])
    have "toggleLine t ?l' = replaceBox ?l'" using tr by (simp add: toggleLine_def)
    also have "\<dots> = replaceBox (leadingSpace l @ ''- ['' @ ''x'' @ ''] '' @ (t @ trailingSpace l))"
      using eq by simp
    also have "\<dots> = leadingSpace l @ ''- [ ] '' @ (t @ trailingSpace l)"
      using leadingSpace_ws by (rule replaceBox_line) (simp add: isLineTerminator_def)
    also have "\<dots> = l" using trim_decomp[of l] 1 by simp
    finally show ?thesis .
  next
    case 2
    then have c: "trim l = ''- ['' @ ''x'' @ ''] '' @ t" by simp
    let ?l' = "toggleLine t l"
    have tr: "trim ?l' = ''- [ ] '' @ t" by (rule toggleLine_checked(2)[OF c]) simp
    have eq: "?l' = leadingSpace l @ ''- [ ] '' @ t @ trailingSpace l"
      by (rule toggleLine_checked(1)[OF c]) simp
    have "toggleLine t ?l' = checkBox ?l'" using tr by (simp add: toggleLine_def)
    also have "\<dots> = checkBox (leadingSpace l @ ''- [ ] '' @ (t @ trailingSpace l))" using eq by simp
    also have "\<dots> = leadingSpace l @ ''- [x] '' @ (t @ trailingSpace l)"
      by (rule checkBox_line) (rule leadingSpace_ws)
    also have "\<dots> = l" using trim_decomp[of l] 2 by simp
    finally show ?thesis .
  next
    case 3
    with assms show ?thesis by (simp add: toggleLine_other)
  qed
qed

lemma splitOn_lines_no_sep: "list_all (\<lambda>l. d \<notin> set l) (splitOn d s)"
proof (induction s)
  case Nil
  then show ?case by simp
next
  case (Cons c cs)
  obtain l ls where sp: "splitOn d cs = l # ls" using splitOn_nonempty by (cases "splitOn d cs") auto
  with Cons show ?case by auto
qed

lemma toggleLine_no_LF:
  assumes "LF \<notin> set l"
  shows "LF \<notin> set (toggleLine t l)"
proof -
  have parts: "LF \<notin> set (leadingSpace l)" "LF \<notin> set (trim l)" "LF \<notin> set (trailingSpace l)"
    using assms trim_decomp[of l]
    by (metis Un_iff set_append)+
  consider "trim l = ''- [ ] '' @ t" | "trim l = ''- ['' @ ''x'' @ ''] '' @ t" | "trim l = ''- ['' @ ''X'' @ ''] '' @ t"
    | "trim l \<noteq> ''- [ ] '' @ t" "trim l \<noteq> ''- [x] '' @ t" "trim l \<noteq> ''- [X] '' @ t"
    by auto
  then show ?thesis
  proof cases
    case 1
    with parts have "LF \<notin> set t" by simp
    with parts show ?thesis by (simp add: toggleLine_unchecked(1)[OF 1] LF_def)
  next
    case 2
    with parts have "LF \<notin> set t" by simp
    with parts show ?thesis using toggleLine_checked(1)[OF 2] by (simp add: LF_def)
  next
    case 3
    with parts have "LF \<notin> set t" by simp
    with parts show ?thesis using toggleLine_checked(1)[OF 3] by (simp add: LF_def)
  next
    case 4
    with assms show ?thesis by (simp add: toggleLine_other)
  qed
qed

lemma toggleCheck_lines: "splitOn LF (toggleCheck c t) = map (toggleLine t) (splitOn LF c)"
proof -
  have "list_all (\<lambda>l. LF \<notin> set l) (map (toggleLine t) (splitOn LF c))"
    using splitOn_lines_no_sep[of LF c] by (simp add: list_all_iff toggleLine_no_LF)
  moreover have "map (toggleLine t) (splitOn LF c) \<noteq> []" by (simp add: splitOn_nonempty)
  ultimately show ?thesis unfolding toggleCheck_def by (intro splitOn_joinWith)
qed

lemma toggleCheck_twice:
  assumes "list_all (\<lambda>l. trim l \<noteq> ''- [X] '' @ t) (splitOn LF c)"
  shows "toggleCheck (toggleCheck c t) t = c"
proof -
  have "map (toggleLine t) (map (toggleLine t) (splitOn LF c)) = splitOn LF c"
    using assms by (induction "splitOn LF c") (auto simp: toggleLine_twice map_idI list_all_iff)
  then have "toggleCheck (toggleCheck c t) t = joinWith [LF] (splitOn LF c)"
    unfolding toggleCheck_def[of "toggleCheck c t"] toggleCheck_lines by simp
  then show ?thesis by (simp add: joinWith_splitOn)
qed

section \<open>Facts about the renderers\<close>

lemma codeMatchAt_no_fence: "\<not> startsWith s ''```'' \<Longrightarrow> codeMatchAt s = None"
  by (simp add: codeMatchAt_def)

lemma parseBlocksFrom_no_fence:
  "\<not> includesStr s ''```'' \<Longrightarrow>
     parseBlocksFrom pend s = (if trim (pend @ s) = [] then [] else [TextBlock (trim (pend @ s))])"
proof (induction s arbitrary: pend)
  case Nil
  then show ?case by (simp add: Let_def)
next
  case (Cons c cs)
  from includesStr_Cons[OF Cons.prems]
  have "\<not> startsWith (c # cs) ''```''" and rec: "\<not> includesStr cs ''```''" by simp_all
  then have "codeMatchAt (c # cs) = None" by (simp add: codeMatchAt_no_fence)
  then show ?case using Cons.IH[OF rec, of "pend @ [c]"] by simp
qed





lemma renderMessage_no_fence:
  "\<not> includesStr c ''```'' \<Longrightarrow> renderMessage c = (if trim c = [] then [] else renderTextBlock (trim c))"
  by (simp add: renderMessage_def parseBlocks_def parseBlocksFrom_no_fence)

lemma blockStep_plain:
  assumes "plainLine l"
  shows "blockStep (es, us, os, []) l = (case textStep (es, us, os) l of (es', us', os') \<Rightarrow> (es', us', os', []))"
  using assms
  by (auto simp: blockStep_def textStep_def Let_def plainLine_def quoteBlock_def split: prod.splits)

lemma foldl_blockStep_plain:
  "list_all plainLine ls \<Longrightarrow>
     foldl blockStep (es, us, os, []) ls = (case foldl textStep (es, us, os) ls of (es', us', os') \<Rightarrow> (es', us', os', []))"
proof (induction ls arbitrary: es us os)
  case Nil
  then show ?case by simp
next
  case (Cons l ls)
  obtain es' us' os' where st: "textStep (es, us, os) l = (es', us', os')" by (cases "textStep (es, us, os) l") auto
  from Cons.prems have "plainLine l" "list_all plainLine ls" by simp_all
  then show ?case using Cons.IH[of es' us' os'] by (simp add: blockStep_plain st)
qed

lemma renderBlock_plain:
  assumes "list_all plainLine (splitOn LF c)" "c \<noteq> []"
  shows "renderBlock c = renderTextBlock c"
proof -
  obtain es us os where st: "foldl textStep ([], [], []) (splitOn LF c) = (es, us, os)"
    by (cases "foldl textStep ([], [], []) (splitOn LF c)") auto
  have "foldl blockStep ([], [], [], []) (splitOn LF c) = (es, us, os, [])"
    using foldl_blockStep_plain[OF assms(1), of "[]" "[]" "[]"] st by simp
  then show ?thesis using assms(2) st by (simp add: renderBlock_def renderTextBlock_def)
qed


lemma flushUlC_plain: "noCheckItems us \<Longrightarrow> flushUlC (es, us, os) = flushUlT (es, us, os)"
  by (auto simp: noCheckItems_def renderItem_def list_all_iff)

lemma flushOlC_eq: "flushOlC st = flushOlT st"
  by (cases st) auto

lemma pushC_eq: "pushC b st = pushT b st"
  by (cases st) auto

lemma flushUlT_items: "noCheckItems (fst (snd st)) \<Longrightarrow> noCheckItems (fst (snd (flushUlT st)))"
  by (cases st) (simp add: noCheckItems_def)

lemma flushOlT_items: "fst (snd (flushOlT st)) = fst (snd st)"
  by (cases st) auto

lemma contentStep_plain:
  assumes "plainLine l" "noCheckItems us"
  shows "contentStep (es, us, os) l = textStep (es, us, os) l
         \<and> noCheckItems (fst (snd (textStep (es, us, os) l)))"
proof -
  have f: "flushUlC (es, us, os) = flushUlT (es, us, os)" using assms(2) by (rule flushUlC_plain)
  have i: "noCheckItems (fst (snd (flushUlT (es, us, os))))" using assms(2) by (simp add: noCheckItems_def)
  have eq: "contentStep (es, us, os) l = textStep (es, us, os) l"
    using assms(1)
    unfolding contentStep_def textStep_def Let_def f flushOlC_eq pushC_eq plainLine_def quoteBlock_def
    by auto
  have "noCheckItems (fst (snd (textStep (es, us, os) l)))"
    using assms i
    by (auto simp: textStep_def Let_def plainLine_def noCheckItems_def split: prod.splits if_splits)
  with eq show ?thesis by simp
qed

lemma foldl_contentStep_plain:
  "list_all plainLine ls \<Longrightarrow> noCheckItems us \<Longrightarrow>
     foldl contentStep (es, us, os) ls = foldl textStep (es, us, os) ls
     \<and> noCheckItems (fst (snd (foldl textStep (es, us, os) ls)))"
proof (induction ls arbitrary: es us os)
  case Nil
  then show ?case by simp
next
  case (Cons l ls)
  obtain es' us' os' where st: "textStep (es, us, os) l = (es', us', os')"
    by (cases "textStep (es, us, os) l") auto
  from Cons.prems have pl: "plainLine l" and rest: "list_all plainLine ls" by simp_all
  from contentStep_plain[OF pl Cons.prems(2), of es os] st
  have c: "contentStep (es, us, os) l = (es', us', os')" and n: "noCheckItems us'" by simp_all
  show ?case using Cons.IH[OF rest n, of es' os'] by (simp add: c st)
qed

lemma ContentRenderer_plain:
  assumes "list_all plainLine (splitOn LF c)"
  shows "ContentRenderer c = renderTextBlock c"
proof -
  obtain es us os where st: "foldl textStep ([], [], []) (splitOn LF c) = (es, us, os)"
    by (cases "foldl textStep ([], [], []) (splitOn LF c)") auto
  have "noCheckItems []" by (simp add: noCheckItems_def)
  from foldl_contentStep_plain[OF assms this, of "[]" "[]"] st
  have c: "foldl contentStep ([], [], []) (splitOn LF c) = (es, us, os)" and n: "noCheckItems us"
    by simp_all
  show ?thesis
    unfolding ContentRenderer_def renderTextBlock_def c st flushUlC_plain[OF n] flushOlC_eq ..
qed

section \<open>Filename safety: the predicate and its pattern\<close>

lemma safeNameRegexTest_iff:
  "safeNameRegexTest s \<longleftrightarrow> (\<exists>p. p \<noteq> [] \<and> list_all isNameChar p \<and> s = p @ ''.mdx'')"
proof
  assume "safeNameRegexTest s"
  then obtain k where k: "1 \<le> k" "k \<le> length (takeWhile isNameChar s)" "drop k s = ''.mdx''"
    unfolding safeNameRegexTest_def Let_def list_ex_iff by auto
  have pre: "take k s = take k (takeWhile isNameChar s)"
    using k(2) by (metis append_eq_conv_conj takeWhile_dropWhile_id take_all_iff take_append order_refl append.right_neutral diff_is_0_eq' take0)
  have "list_all isNameChar (take k s)"
    unfolding pre list_all_iff by (meson in_set_takeD set_takeWhileD)
  moreover have "take k s \<noteq> []" using k by (auto simp: take_eq_Nil)
  moreover have "s = take k s @ ''.mdx''" using k(3) by (metis append_take_drop_id)
  ultimately show "\<exists>p. p \<noteq> [] \<and> list_all isNameChar p \<and> s = p @ ''.mdx''" by blast
next
  assume "\<exists>p. p \<noteq> [] \<and> list_all isNameChar p \<and> s = p @ ''.mdx''"
  then obtain p where p: "p \<noteq> []" "list_all isNameChar p" "s = p @ ''.mdx''" by blast
  have "list_all isNameChar ''.mdx''" by (simp add: isNameChar_def isWordChar_def)
  with p have "list_all isNameChar s" by simp
  then have "takeWhile isNameChar s = s" by (simp add: list_all_iff)
  then have n: "length (takeWhile isNameChar s) = length p + 4" using p(3) by simp
  have "length p \<in> set (rev [1..<Suc (length p + 4)])" using p(1) by (cases p) auto
  moreover have "drop (length p) s = ''.mdx''" using p(3) by simp
  ultimately show "safeNameRegexTest s"
    unfolding safeNameRegexTest_def Let_def list_ex_iff n by blast
qed

text \<open>
  Claim C9. \<open>isSafeFilename s\<close> is true exactly when \<open>s\<close> matches
  \<open>^[\w.-]+\.mdx$\<close>, that is, \<open>s\<close> is a non-empty run of word characters, dots and
  hyphens followed by \<open>.mdx\<close>, and \<open>s\<close> has no \<open>..\<close> substring. It accepts
  \<open>2026-02-25-my-plan.mdx\<close> and rejects \<open>../secrets.mdx\<close>, \<open>file.txt\<close>, the empty
  string and \<open>subdir/file.mdx\<close>.
\<close>

theorem isSafeFilename_spec:
  "(isSafeFilename s \<longleftrightarrow>
      (\<exists>p. p \<noteq> [] \<and> list_all isNameChar p \<and> s = p @ ''.mdx'') \<and> (\<nexists>u v. s = u @ ''..'' @ v))
   \<and> isSafeFilename ''2026-02-25-my-plan.mdx''
   \<and> \<not> isSafeFilename ''../secrets.mdx''
   \<and> \<not> isSafeFilename ''file.txt''
   \<and> \<not> isSafeFilename ''''
   \<and> \<not> isSafeFilename ''subdir/file.mdx''"
proof -
  have gen: "isSafeFilename s \<longleftrightarrow>
      (\<exists>p. p \<noteq> [] \<and> list_all isNameChar p \<and> s = p @ ''.mdx'') \<and> (\<nexists>u v. s = u @ ''..'' @ v)"
    unfolding isSafeFilename_def safeNameRegexTest_iff includesStr_iff ..
  have e1: "isSafeFilename ''2026-02-25-my-plan.mdx''" by code_simp
  have e2: "\<not> isSafeFilename ''../secrets.mdx''" by code_simp
  have e3: "\<not> isSafeFilename ''file.txt''" by code_simp
  have e4: "\<not> isSafeFilename ''''" by code_simp
  have e5: "\<not> isSafeFilename ''subdir/file.mdx''" by code_simp
  from gen e1 e2 e3 e4 e5 show ?thesis by blast
qed

theorem isSafeFilename_spec_witness:
  "isSafeFilename ''my-chat.mdx'' \<and> \<not> isSafeFilename ''a..b.mdx''"
proof -
  have a: "(\<exists>p. p \<noteq> [] \<and> list_all isNameChar p \<and> ''my-chat.mdx'' = p @ ''.mdx'')"
    by (rule exI[of _ "''my-chat''"]) (simp add: isNameChar_def isWordChar_def)
  have "\<not> includesStr ''my-chat.mdx'' ''..''" by code_simp
  then have b: "\<nexists>u v. ''my-chat.mdx'' = u @ ''..'' @ v"
    unfolding includesStr_iff .
  have c: "\<exists>u v. ''a..b.mdx'' = u @ ''..'' @ v"
    by (rule exI[of _ "''a''"], rule exI[of _ "''b.mdx''"]) simp
  show ?thesis
    using isSafeFilename_spec[of "''my-chat.mdx''"] isSafeFilename_spec[of "''a..b.mdx''"] a b c
    by blast
qed

section \<open>The encoder, by key and value shape\<close>

text \<open>
  Claim C7, as stated, gives the block form to every array of records (milestones or
  action_items) and the bracketed form to every array of strings. The encoder chooses
  by key: an \<open>action_items\<close> array, and an array of strings under a key other than
  \<open>tags\<close>, fall to the scalar branch and are converted by \<open>String\<close>.
\<close>

theorem buildFrontmatter_action_items_counterexample:
  "buildFrontmatter [(''action_items'', JArr [JObj [(''task'', JStr ''a''), (''done'', JBool False)]])]
     = Inr ''action_items: [object Object]''
   \<and> buildFrontmatter [(''action_items'', JArr [JObj [(''task'', JStr ''a''), (''done'', JBool False)]])]
     \<noteq> Inr (joinWith [LF] [''action_items:'', ''  - task: '' @ [DQ] @ ''a'' @ [DQ], ''    done: false''])
   \<and> buildFrontmatter [(''keywords'', JArr [JStr ''java'', JStr ''gsoc''])] = Inr ''keywords: java,gsoc''"
  by (simp add: buildFrontmatter_def LF_def)

text \<open>
  Claim C7, amended. Call a value printable when it is neither an object with an own
  property \<open>toString\<close> nor an array that holds a value which is not printable; these are
  the values \<open>String\<close> converts, and it throws on the others. For every field list, the
  encoder fails exactly when a \<open>milestones\<close> array holds \<open>null\<close>, \<open>undefined\<close> or a record
  whose title, weeks or status is not printable, a \<open>tags\<close> array holds an element that is
  not printable, or any other field's value is not printable; strings, booleans,
  numbers, \<open>undefined\<close> and \<open>null\<close> never make it fail. Otherwise its output is the fields'
  lines, in order, joined by line breaks, where: the field \<open>milestones\<close> with an array
  value gives \<open>milestones:\<close> and three indented lines per record (title and weeks as
  scalars, status in bare double quotes); the field \<open>tags\<close> with an array value gives one
  bracketed line with every element in double quotes, separated by comma and space; a
  string under any key gives \<open>key: "..."\<close> with backslashes, then quotes, escaped; a
  boolean or a number gives \<open>key: text\<close>; \<open>undefined\<close> and \<open>null\<close> give no line. So
  \<open>{tags: []}\<close> yields \<open>tags: []\<close>, \<open>{tags: ["java","gsoc"]}\<close> yields
  \<open>tags: ["java", "gsoc"]\<close> and \<open>{title: 'say "hi"'}\<close> yields \<open>title: "say \"hi\""\<close>.
\<close>

theorem buildFrontmatter_by_shape:
  "buildFrontmatter data =
     (if list_all encodable data then Inr (joinWith [LF] (concat (map encodeField data)))
      else Inl TypeError)
   \<and> toString v = (if printable v then Inr (printedText v) else Inl TypeError)
   \<and> serializeYamlValue v = (if printable v then Inr (scalarText v) else Inl TypeError)
   \<and> encodable (key, JStr s) \<and> encodable (key, JBool b) \<and> encodable (key, JNum n)
   \<and> encodable (key, JUndefined) \<and> encodable (key, JNull)
   \<and> encodeField (''milestones'', JArr ms) = ''milestones:'' # concat (map recordBlock ms)
   \<and> recordBlock (JObj [(''title'', JStr t), (''weeks'', JStr w), (''status'', JStr st)]) =
        [''  - title: '' @ [DQ] @ escapeQuotes (escapeBackslashes t) @ [DQ],
         ''    weeks: '' @ [DQ] @ escapeQuotes (escapeBackslashes w) @ [DQ],
         ''    status: '' @ [DQ] @ st @ [DQ]]
   \<and> encodeField (''tags'', JArr (map JStr ts)) =
        [''tags: ['' @ joinWith '', '' (map (\<lambda>t. [DQ] @ t @ [DQ]) ts) @ '']'']
   \<and> encodeField (key, JStr s) = [key @ '': '' @ [DQ] @ escapeQuotes (escapeBackslashes s) @ [DQ]]
   \<and> encodeField (key, JBool b) = [key @ '': '' @ (if b then ''true'' else ''false'')]
   \<and> encodeField (key, JNum n) = [key @ '': '' @ n]
   \<and> encodeField (key, JUndefined) = [] \<and> encodeField (key, JNull) = []
   \<and> buildFrontmatter [(''tags'', JArr [])] = Inr ''tags: []''
   \<and> buildFrontmatter [(''tags'', JArr [JStr ''java'', JStr ''gsoc''])]
        = Inr (''tags: ['' @ [DQ] @ ''java'' @ [DQ] @ '', '' @ [DQ] @ ''gsoc'' @ [DQ] @ '']'')
   \<and> buildFrontmatter [(''title'', JStr (''say '' @ [DQ] @ ''hi'' @ [DQ]))]
        = Inr (''title: '' @ [DQ] @ ''say '' @ [BSLASH, DQ] @ ''hi'' @ [BSLASH, DQ] @ [DQ])"
proof -
  have en: "encodable (key, JStr s) \<and> encodable (key, JBool b) \<and> encodable (key, JNum n)
      \<and> encodable (key, JUndefined) \<and> encodable (key, JNull)"
    by (simp add: encodable_def)
  have tags: "encodeField (''tags'', JArr (map JStr ts)) =
        [''tags: ['' @ joinWith '', '' (map (\<lambda>t. [DQ] @ t @ [DQ]) ts) @ '']'']"
    by (simp add: encodeField_def tagsText_def printedText_def comp_def)
  have rec: "recordBlock (JObj [(''title'', JStr t), (''weeks'', JStr w), (''status'', JStr st)]) =
        [''  - title: '' @ [DQ] @ escapeQuotes (escapeBackslashes t) @ [DQ],
         ''    weeks: '' @ [DQ] @ escapeQuotes (escapeBackslashes w) @ [DQ],
         ''    status: '' @ [DQ] @ st @ [DQ]]"
    by (simp add: recordBlock_def field_def scalarText_def printedText_def)
  have e1: "buildFrontmatter [(''tags'', JArr [])] = Inr ''tags: []''"
    by (simp add: buildFrontmatter_def tagsLine_def)
  have e2: "buildFrontmatter [(''tags'', JArr [JStr ''java'', JStr ''gsoc''])]
        = Inr (''tags: ['' @ [DQ] @ ''java'' @ [DQ] @ '', '' @ [DQ] @ ''gsoc'' @ [DQ] @ '']'')"
    by (simp add: buildFrontmatter_def tagsLine_def)
  have e3: "buildFrontmatter [(''title'', JStr (''say '' @ [DQ] @ ''hi'' @ [DQ]))]
        = Inr (''title: '' @ [DQ] @ ''say '' @ [BSLASH, DQ] @ ''hi'' @ [BSLASH, DQ] @ [DQ])"
    by (simp add: buildFrontmatter_def escapeQuotes_def escapeBackslashes_def)
  have sc: "encodeField (key, JStr s) = [key @ '': '' @ [DQ] @ escapeQuotes (escapeBackslashes s) @ [DQ]]
      \<and> encodeField (key, JBool b) = [key @ '': '' @ (if b then ''true'' else ''false'')]
      \<and> encodeField (key, JNum n) = [key @ '': '' @ n]
      \<and> encodeField (key, JUndefined) = [] \<and> encodeField (key, JNull) = []
      \<and> encodeField (''milestones'', JArr ms) = ''milestones:'' # concat (map recordBlock ms)"
    by (simp add: encodeField_def nullish_def scalarText_def)
  show ?thesis
    using en tags rec e1 e2 e3 sc
      buildFrontmatter_fields[of data] toString_printable[of v] serializeYamlValue_printable[of v]
    by blast
qed

theorem buildFrontmatter_by_shape_witness:
  "buildFrontmatter
     [(''title'', JStr ''Plan''), (''n'', JNum ''42''), (''tldr'', JUndefined),
      (''milestones'', JArr [JObj [(''title'', JStr ''P1''), (''weeks'', JStr ''1-4''), (''status'', JStr ''complete'')]])]
     = Inr (joinWith [LF]
         [''title: '' @ [DQ] @ ''Plan'' @ [DQ], ''n: 42'', ''milestones:'',
          ''  - title: '' @ [DQ] @ ''P1'' @ [DQ], ''    weeks: '' @ [DQ] @ ''1-4'' @ [DQ],
          ''    status: '' @ [DQ] @ ''complete'' @ [DQ]])
   \<and> buildFrontmatter [(''milestones'', JArr [JNull])] = Inl TypeError
   \<and> buildFrontmatter [(''k'', JObj [(''toString'', JNum ''1'')])] = Inl TypeError
   \<and> buildFrontmatter [(''tags'', JArr [JObj [(''toString'', JNull)]])] = Inl TypeError
   \<and> buildFrontmatter [(''milestones'', JArr [JObj [(''status'', JArr [JObj [(''toString'', JBool True)]])]])]
       = Inl TypeError"
proof -
  have a: "buildFrontmatter
     [(''title'', JStr ''Plan''), (''n'', JNum ''42''), (''tldr'', JUndefined),
      (''milestones'', JArr [JObj [(''title'', JStr ''P1''), (''weeks'', JStr ''1-4''), (''status'', JStr ''complete'')]])]
     = Inr (joinWith [LF]
         [''title: '' @ [DQ] @ ''Plan'' @ [DQ], ''n: 42'', ''milestones:'',
          ''  - title: '' @ [DQ] @ ''P1'' @ [DQ], ''    weeks: '' @ [DQ] @ ''1-4'' @ [DQ],
          ''    status: '' @ [DQ] @ ''complete'' @ [DQ]])"
    using buildFrontmatter_by_shape[of
      "[(''title'', JStr ''Plan''), (''n'', JNum ''42''), (''tldr'', JUndefined),
        (''milestones'', JArr [JObj [(''title'', JStr ''P1''), (''weeks'', JStr ''1-4''), (''status'', JStr ''complete'')]])]"]
    by (simp add: encodable_def encodableRecord_def nullish_def encodeField_def recordBlock_def field_def
        scalarText_def printedText_def escapeQuotes_def escapeBackslashes_def)
  have b: "buildFrontmatter [(''milestones'', JArr [JNull])] = Inl TypeError"
    using buildFrontmatter_by_shape[of "[(''milestones'', JArr [JNull])]"]
    by (simp add: encodable_def encodableRecord_def nullish_def)
  have c: "buildFrontmatter [(''k'', JObj [(''toString'', JNum ''1'')])] = Inl TypeError"
    using buildFrontmatter_by_shape[of "[(''k'', JObj [(''toString'', JNum ''1'')])]"]
    by (simp add: encodable_def)
  have d: "buildFrontmatter [(''tags'', JArr [JObj [(''toString'', JNull)]])] = Inl TypeError"
    using buildFrontmatter_by_shape[of "[(''tags'', JArr [JObj [(''toString'', JNull)]])]"]
    by (simp add: encodable_def)
  have e: "buildFrontmatter [(''milestones'', JArr [JObj [(''status'', JArr [JObj [(''toString'', JBool True)]])]])]
       = Inl TypeError"
    using buildFrontmatter_by_shape[of
      "[(''milestones'', JArr [JObj [(''status'', JArr [JObj [(''toString'', JBool True)]])]])]"]
    by (simp add: encodable_def encodableRecord_def nullish_def field_def)
  from a b c d e show ?thesis by blast
qed

section \<open>Assembling a document\<close>

text \<open>
  Claim C2, as stated, fails in two ways. The encoder does not escape line breaks, so a
  string that holds a line break followed by three hyphens (the summary field is a
  multi-line text area) puts a line into the header at which the header matcher stops:
  the header block read from the assembled document is cut short, and what follows the
  closing delimiter found there is not the trimmed body. And the encoder throws on some
  field maps, for which no document is assembled.
\<close>

theorem assembleDocument_body_counterexample:
  "assembleDocument [(''tldr'', JStr (''x'' @ [LF] @ ''---'' @ [LF] @ ''y''))] ''b''
     = Inr (''---'' @ [LF] @ ''tldr: '' @ [DQ] @ ''x'' @ [LF] @ ''---'' @ [LF] @ ''y'' @ [DQ] @ [LF] @ ''---''
            @ [LF, LF] @ ''b'' @ [LF])
   \<and> matchFrontmatter (''---'' @ [LF] @ ''tldr: '' @ [DQ] @ ''x'' @ [LF] @ ''---'' @ [LF] @ ''y'' @ [DQ] @ [LF] @ ''---''
            @ [LF, LF] @ ''b'' @ [LF])
     = Some (''tldr: '' @ [DQ] @ ''x'')
   \<and> bodyAfterHeader (''---'' @ [LF] @ ''tldr: '' @ [DQ] @ ''x'' @ [LF] @ ''---'' @ [LF] @ ''y'' @ [DQ] @ [LF] @ ''---''
            @ [LF, LF] @ ''b'' @ [LF])
     \<noteq> Some (''b'' @ [LF])
   \<and> assembleDocument [(''tldr'', JStr (''x'' @ [LF] @ ''---'' @ [LF, LF] @ ''y''))] ''b''
     = Inr (''---'' @ [LF] @ ''tldr: '' @ [DQ] @ ''x'' @ [LF] @ ''---'' @ [LF, LF] @ ''y'' @ [DQ] @ [LF] @ ''---''
            @ [LF, LF] @ ''b'' @ [LF])
   \<and> bodyAfterHeader (''---'' @ [LF] @ ''tldr: '' @ [DQ] @ ''x'' @ [LF] @ ''---'' @ [LF, LF] @ ''y'' @ [DQ] @ [LF] @ ''---''
            @ [LF, LF] @ ''b'' @ [LF])
     = Some (''y'' @ [DQ] @ [LF] @ ''---'' @ [LF, LF] @ ''b'' @ [LF])
   \<and> assembleDocument [(''milestones'', JArr [JNull])] ''b'' = Inl TypeError"
  by code_simp

text \<open>
  Claim C2, amended. Whenever the encoder yields the header text \<open>fm\<close> for the field map,
  the assembled document is exactly the opening line, \<open>fm\<close>, the closing delimiter with
  its blank line, the trimmed body and one line break, and the trimmed body does not
  itself end in white space, so the trailing line break is the only one. Extracting the
  body from that document (what follows the header block as the header matcher delimits
  it, and the blank line) gives the trimmed body and that line break exactly when \<open>fm\<close>
  holds no line break followed by three hyphens; that is the case for every header
  whose keys are plain and whose values are booleans, numbers, or strings without
  double quote, backslash and line terminator.
\<close>

theorem assembleDocument_body:
  assumes "buildFrontmatter H = Inr fm"
  shows "assembleDocument H B = Inr (''---'' @ [LF] @ fm @ [LF] @ ''---'' @ [LF, LF] @ trim B @ [LF])
    \<and> (bodyAfterHeader (''---'' @ [LF] @ fm @ [LF] @ ''---'' @ [LF, LF] @ trim B @ [LF])
          = Some (trim B @ [LF]))
        = (\<not> includesStr fm (LF # ''---''))
    \<and> (trim B = [] \<or> \<not> isWhiteSpace (last (trim B)))
    \<and> (list_all plainKey (map fst H) \<and> list_all plainScalar (map snd H)
         \<longrightarrow> \<not> includesStr fm (LF # ''---''))"
proof -
  let ?doc = "''---'' @ [LF] @ fm @ [LF] @ ''---'' @ [LF, LF] @ trim B @ [LF]"
  have doc: "assembleDocument H B = Inr ?doc"
    using assms by (simp add: assembleDocument_def)
  have yes: "bodyAfterHeader ?doc = Some (trim B @ [LF])" if "\<not> includesStr fm (LF # ''---'')"
  proof -
    have "matchFrontmatter ?doc = Some fm"
      using matchFrontmatter_assembled[OF that, of "[LF, LF] @ trim B @ [LF]"] by simp
    moreover have "drop (4 + length fm + 4) ?doc = [LF, LF] @ trim B @ [LF]"
    proof -
      have "?doc = (''---'' @ [LF] @ fm @ [LF] @ ''---'') @ ([LF, LF] @ trim B @ [LF])" by simp
      moreover have "length (''---'' @ [LF] @ fm @ [LF] @ ''---'') = 4 + length fm + 4" by simp
      ultimately show ?thesis by (metis append_eq_conv_conj)
    qed
    ultimately show ?thesis
      unfolding bodyAfterHeader_def by (simp add: startsWith_def)
  qed
  have no: "bodyAfterHeader ?doc \<noteq> Some (trim B @ [LF])" if "includesStr fm (LF # ''---'')"
  proof -
    from that obtain u v where fm: "fm = u @ (LF # ''---'') @ v"
      unfolding includesStr_iff by blast
    have d4: "drop 4 ?doc = u @ (LF # ''---'') @ (v @ [LF] @ ''---'' @ [LF, LF] @ trim B @ [LF])"
      by (simp add: fm)
    obtain j where j: "indexOf (drop 4 ?doc) (LF # ''---'') = Some j" "j \<le> length u"
      unfolding d4 indexOf_def
      using indexOfFrom_at_most[of "LF # ''---''" u "v @ [LF] @ ''---'' @ [LF, LF] @ trim B @ [LF]" 0]
      by auto
    have st: "startsWith ?doc (''---'' @ [LF])" by (simp add: startsWith_def)
    define blk where "blk = take j (drop 4 ?doc)"
    have len: "length blk = j" using j(2) by (simp add: blk_def fm)
    have m: "matchFrontmatter ?doc = Some blk"
      unfolding matchFrontmatter_def blk_def using st j(1) by simp
    have b: "bodyAfterHeader ?doc =
        (if startsWith (drop (4 + j + 4) ?doc) [LF, LF] then Some (drop 2 (drop (4 + j + 4) ?doc)) else None)"
      unfolding bodyAfterHeader_def m by (simp add: len Let_def)
    show ?thesis
    proof
      assume "bodyAfterHeader ?doc = Some (trim B @ [LF])"
      with b have "drop 2 (drop (4 + j + 4) ?doc) = trim B @ [LF]"
        by (simp split: if_splits)
      then have "length (drop 2 (drop (4 + j + 4) ?doc)) = length (trim B @ [LF])" by simp
      then show False using j(2) by (simp add: fm)
    qed
  qed
  have plain: "\<not> includesStr fm (LF # ''---'')"
    if "list_all plainKey (map fst H) \<and> list_all plainScalar (map snd H)"
  proof -
    from that have "buildFrontmatter H = Inr (joinWith [LF] (map headerLine H))"
      by (simp add: buildFrontmatter_plain)
    with assms have "fm = joinWith [LF] (map headerLine H)" by simp
    then show ?thesis using that by (simp add: headerLines_no_delim)
  qed
  from doc yes no plain trim_last_not_space[of B] show ?thesis by blast
qed

theorem assembleDocument_body_witness:
  "assembleDocument [(''title'', JStr ''T'')] (''  hi'' @ [LF, LF])
     = Inr (''---'' @ [LF] @ ''title: '' @ [DQ] @ ''T'' @ [DQ] @ [LF] @ ''---'' @ [LF, LF] @ ''hi'' @ [LF])
   \<and> bodyAfterHeader (''---'' @ [LF] @ ''title: '' @ [DQ] @ ''T'' @ [DQ] @ [LF] @ ''---'' @ [LF, LF] @ ''hi'' @ [LF])
     = Some (''hi'' @ [LF])
   \<and> \<not> includesStr (''title: '' @ [DQ] @ ''T'' @ [DQ]) (LF # ''---'')"
proof -
  have fm: "buildFrontmatter [(''title'', JStr ''T'')] = Inr (''title: '' @ [DQ] @ ''T'' @ [DQ])"
    by (simp add: buildFrontmatter_def escapeQuotes_def escapeBackslashes_def)
  have tr: "trim (''  hi'' @ [LF, LF]) = ''hi''"
    by (simp add: trim_def trimStart_def trimEnd_def isWhiteSpace_def LF_def)
  have pk: "list_all plainKey (map fst [(''title'', JStr ''T'')])"
    by (simp add: plainKey_def isWhiteSpace_def startsWith_def LF_def)
  have pv: "list_all plainScalar (map snd [(''title'', JStr ''T'')])"
    by (simp add: isLineTerminator_def)
  show ?thesis
    using assembleDocument_body[OF fm, of "''  hi'' @ [LF, LF]"] tr pk pv by auto
qed

section \<open>Reading back an assembled header\<close>




section \<open>Segmenting a chat body into messages\<close>


section \<open>Segmenting a plan body into intro and sections\<close>

text \<open>
  Claim C4. The closure \<open>flush\<close> clears the collected lines only when a section is open,
  so the lines before the first heading stay in the buffer and become part of the first
  section's content; and the intro stops at the first line that passes \<open>/^##\s/\<close>, which a
  level-3 heading does not. On \<open>intro\<close>, \<open>## A\<close>, \<open>body\<close> the section \<open>A\<close> gets the content
  \<open>intro\<close>, line break, \<open>body\<close>, where the claim has \<open>body\<close>; on \<open>intro\<close>, \<open>### Sub\<close>,
  \<open>text\<close> the intro is the whole body, where the claim has \<open>intro\<close>.
\<close>

theorem segmentSections_intro_leak:
  "segmentSections ''intro\<newline>## A\<newline>body''
     = (''intro'', [\<lparr>level = 2, title = ''A'', content = ''intro\<newline>body''\<rparr>])
   \<and> segmentSections ''intro\<newline>### Sub\<newline>text''
     = (''intro\<newline>### Sub\<newline>text'', [\<lparr>level = 3, title = ''Sub'', content = ''intro\<newline>text''\<rparr>])"
  by code_simp

text \<open>
  Where the claim and the code agree: a body none of whose lines is a heading for either
  scan has no sections, and its intro is the trimmed body.
\<close>

lemma foldl_sectionStep_no_heading:
  "list_all (\<lambda>l. headingMatch ''## '' l = None \<and> headingMatch ''### '' l = None) ls \<Longrightarrow>
     foldl sectionStep st ls = st\<lparr>contentLines := contentLines st @ ls\<rparr>"
  by (induction ls arbitrary: st) (simp_all add: sectionStep_def)

lemma segmentSections_no_heading:
  assumes "list_all (\<lambda>l. \<not> introBreak l \<and> headingMatch ''## '' l = None \<and> headingMatch ''### '' l = None)
             (splitOn LF raw)"
  shows "segmentSections raw = (trim raw, [])"
proof -
  from assms have a: "list_all (\<lambda>l. headingMatch ''## '' l = None \<and> headingMatch ''### '' l = None) (splitOn LF raw)"
    and b: "takeWhile (\<lambda>line. \<not> introBreak line) (splitOn LF raw) = splitOn LF raw"
    by (auto simp: list_all_iff)
  have "parseSections raw = []"
    by (simp add: parseSections_def foldl_sectionStep_no_heading[OF a] flush_def)
  moreover have "introOf raw = trim raw"
    by (simp add: introOf_def b joinWith_splitOn)
  ultimately show ?thesis by (simp add: segmentSections_def)
qed

section \<open>Toggling a check box\<close>

text \<open>
  Claim C8, as stated, has only the lines whose trimmed text equals the given line's
  flipped and the toggle an involution. The handler compares every line with the checked
  and with the unchecked form of the item's text, so a checked and an unchecked line
  with the same text both flip when either is clicked; and a line checked with a capital
  \<open>X\<close> comes back with a small \<open>x\<close>.
\<close>

theorem toggleCheck_counterexample:
  "checkBoxText ''- [ ] a'' = Some ''a''
   \<and> toggleCheck ''- [ ] a\<newline>- [x] a'' ''a'' = ''- [x] a\<newline>- [ ] a''
   \<and> checkBoxText ''- [X] a'' = Some ''a''
   \<and> toggleCheck (toggleCheck ''- [X] a'' ''a'') ''a'' = ''- [x] a''
   \<and> toggleCheck (toggleCheck ''- [X] a'' ''a'') ''a'' \<noteq> ''- [X] a''"
  by code_simp

text \<open>
  Claim C8, amended. Given a content blob and the text \<open>t\<close> of a check box, the toggle
  works line by line: a line whose trimmed text is \<open>- [ ] t\<close> gets the marker \<open>[x]\<close>, a
  line whose trimmed text is \<open>- [x] t\<close> or \<open>- [X] t\<close> gets the marker \<open>[ ]\<close> (the white
  space around the line is kept), every other line is unchanged; and when no line
  carries the capital marker for \<open>t\<close>, toggling twice restores the content. Toggling
  \<open>- [ ] Buy milk\<close> gives \<open>- [x] Buy milk\<close>, and toggling again gives back the original.
\<close>

theorem toggleCheck_spec:
  "splitOn LF (toggleCheck c t) = map (toggleLine t) (splitOn LF c)
   \<and> (trim l = ''- [ ] '' @ t \<longrightarrow> toggleLine t l = leadingSpace l @ ''- [x] '' @ t @ trailingSpace l)
   \<and> (trim l = ''- [x] '' @ t \<or> trim l = ''- [X] '' @ t \<longrightarrow>
        toggleLine t l = leadingSpace l @ ''- [ ] '' @ t @ trailingSpace l)
   \<and> (trim l \<noteq> ''- [ ] '' @ t \<and> trim l \<noteq> ''- [x] '' @ t \<and> trim l \<noteq> ''- [X] '' @ t \<longrightarrow> toggleLine t l = l)
   \<and> (list_all (\<lambda>l. trim l \<noteq> ''- [X] '' @ t) (splitOn LF c) \<longrightarrow> toggleCheck (toggleCheck c t) t = c)
   \<and> checkBoxText ''- [ ] Buy milk'' = Some ''Buy milk''
   \<and> toggleCheck ''- [ ] Buy milk'' ''Buy milk'' = ''- [x] Buy milk''
   \<and> toggleCheck ''- [x] Buy milk'' ''Buy milk'' = ''- [ ] Buy milk''"
proof -
  have un: "toggleLine t l = leadingSpace l @ ''- [x] '' @ t @ trailingSpace l" if "trim l = ''- [ ] '' @ t"
    using that by (rule toggleLine_unchecked(1))
  have ch: "toggleLine t l = leadingSpace l @ ''- [ ] '' @ t @ trailingSpace l"
    if "trim l = ''- [x] '' @ t \<or> trim l = ''- [X] '' @ t"
  proof -
    from that obtain b where "trim l = ''- ['' @ [b] @ ''] '' @ t" "b = CHR ''x'' \<or> b = CHR ''X''"
      by auto
    then show ?thesis by (rule toggleLine_checked(1))
  qed
  have e1: "checkBoxText ''- [ ] Buy milk'' = Some ''Buy milk''" by code_simp
  have e2: "toggleCheck ''- [ ] Buy milk'' ''Buy milk'' = ''- [x] Buy milk''" by code_simp
  have e3: "toggleCheck ''- [x] Buy milk'' ''Buy milk'' = ''- [ ] Buy milk''" by code_simp
  show ?thesis
    using toggleCheck_lines[of c t] un ch toggleLine_other[of l t] toggleCheck_twice[of t c] e1 e2 e3
    by blast
qed

theorem toggleCheck_spec_witness:
  "toggleCheck (toggleCheck ''- [ ] a\<newline>  - [x] a \<newline>other'' ''a'') ''a'' = ''- [ ] a\<newline>  - [x] a \<newline>other''
   \<and> toggleLine ''a'' ''  - [x] a '' = ''  - [ ] a ''
   \<and> toggleLine ''a'' ''other'' = ''other''"
proof -
  note T = toggleCheck_spec[of "''- [ ] a\<newline>  - [x] a \<newline>other''" "''a''" "''  - [x] a ''"]
  note U = toggleCheck_spec[of "''- [ ] a\<newline>  - [x] a \<newline>other''" "''a''" "''other''"]
  have h1: "list_all (\<lambda>l. trim l \<noteq> ''- [X] '' @ ''a'') (splitOn LF ''- [ ] a\<newline>  - [x] a \<newline>other'')"
    by code_simp
  have h2: "trim ''  - [x] a '' = ''- [x] '' @ ''a''" by code_simp
  have h3: "leadingSpace ''  - [x] a '' @ ''- [ ] '' @ ''a'' @ trailingSpace ''  - [x] a '' = ''  - [ ] a ''"
    by code_simp
  have h4: "trim ''other'' \<noteq> ''- [ ] '' @ ''a'' \<and> trim ''other'' \<noteq> ''- [x] '' @ ''a''
      \<and> trim ''other'' \<noteq> ''- [X] '' @ ''a''"
    by code_simp
  from T h1 have a: "toggleCheck (toggleCheck ''- [ ] a\<newline>  - [x] a \<newline>other'' ''a'') ''a'' = ''- [ ] a\<newline>  - [x] a \<newline>other''"
    by blast
  from T h2 have "toggleLine ''a'' ''  - [x] a '' = leadingSpace ''  - [x] a '' @ ''- [ ] '' @ ''a'' @ trailingSpace ''  - [x] a ''"
    by blast
  with h3 have b: "toggleLine ''a'' ''  - [x] a '' = ''  - [ ] a ''" by simp
  from U h4 have c: "toggleLine ''a'' ''other'' = ''other''" by blast
  from a b c show ?thesis by blast
qed

section \<open>Fenced code\<close>




section \<open>One renderer or three\<close>

text \<open>
  Claim C6, as stated, has the chat content and the plan content go through one
  renderer. The repository has three (\<open>renderTextBlock\<close> behind \<open>parseBlocks\<close> in
  ChatLog.tsx, \<open>renderBlock\<close> in PlanContent.tsx, \<open>ContentRenderer\<close> in EditablePlan.tsx),
  and they differ: a line of three hyphens is a paragraph in a chat message and a
  divider in a plan section; a checklist line is a bullet in a chat message, a
  checklist in the plan view and a check box inside a bullet list in the editable plan.
\<close>

theorem renderers_differ_counterexample:
  "renderMessage ''---'' = [Paragraph [Text ''---'']]
   \<and> renderBlock ''---'' = [Divider]
   \<and> ContentRenderer ''---'' = [Divider]
   \<and> renderMessage ''---'' \<noteq> renderBlock ''---''
   \<and> renderMessage ''- [x] a'' = [UList [Bullet [Text ''[x] a'']]]
   \<and> renderBlock ''- [x] a'' = [Checklist [(True, [Text ''a''])]]
   \<and> ContentRenderer ''- [x] a'' = [UList [CheckItem True [Text ''a'']]]"
  by code_simp

text \<open>
  Claim C6, amended. The three renderers share the inline-span parser and the tests for
  bullet items, numbered items and quotes. For every trimmed content without a triple
  backtick whose lines are plain (no checklist item, no divider, no emoji callout) the
  chat renderer, the plan renderer and the editable plan renderer produce the same
  blocks with the same spans.
\<close>

theorem renderers_agree_plain:
  assumes "\<not> includesStr c ''```''" "trim c = c" "list_all plainLine (splitOn LF c)"
  shows "renderMessage c = renderBlock c \<and> renderMessage c = ContentRenderer c"
proof (cases "c = []")
  case True
  have "renderTextBlock [] = []"
    by (simp add: renderTextBlock_def textStep_def trim_def trimStart_def trimEnd_def)
  with True assms show ?thesis
    using ContentRenderer_plain[of c] by (simp add: renderMessage_no_fence renderBlock_def)
next
  case False
  with assms(1,2) have "renderMessage c = renderTextBlock c" by (simp add: renderMessage_no_fence)
  with False assms(3) show ?thesis by (simp add: renderBlock_plain ContentRenderer_plain)
qed

theorem renderers_agree_plain_witness:
  "renderMessage ''Intro **bold**\<newline>- a\<newline>- b\<newline>\<newline>1. x\<newline>> q'' =
     [Paragraph [Text ''Intro '', Strong ''bold''], UList [Bullet [Text ''a''], Bullet [Text ''b'']],
      OList [[Text ''x'']], Blockquote [Text ''q'']]
   \<and> renderBlock ''Intro **bold**\<newline>- a\<newline>- b\<newline>\<newline>1. x\<newline>> q'' =
     [Paragraph [Text ''Intro '', Strong ''bold''], UList [Bullet [Text ''a''], Bullet [Text ''b'']],
      OList [[Text ''x'']], Blockquote [Text ''q'']]
   \<and> ContentRenderer ''Intro **bold**\<newline>- a\<newline>- b\<newline>\<newline>1. x\<newline>> q'' =
     [Paragraph [Text ''Intro '', Strong ''bold''], UList [Bullet [Text ''a''], Bullet [Text ''b'']],
      OList [[Text ''x'']], Blockquote [Text ''q'']]"
proof -
  let ?c = "''Intro **bold**\<newline>- a\<newline>- b\<newline>\<newline>1. x\<newline>> q''"
  have h1: "\<not> includesStr ?c ''```''" by code_simp
  have h2: "trim ?c = ?c" by code_simp
  have h3: "list_all plainLine (splitOn LF ?c)" by code_simp
  have r: "renderMessage ?c =
     [Paragraph [Text ''Intro '', Strong ''bold''], UList [Bullet [Text ''a''], Bullet [Text ''b'']],
      OList [[Text ''x'']], Blockquote [Text ''q'']]"
    by code_simp
  note T = renderers_agree_plain[OF h1 h2 h3]
  from T have a: "renderBlock ?c = renderMessage ?c" by (rule conjunct1[THEN sym])
  from T have b: "ContentRenderer ?c = renderMessage ?c" by (rule conjunct2[THEN sym])
  show ?thesis unfolding a b using r by simp
qed

section \<open>Updating frontmatter fields in place\<close>

text \<open>
  Claim C10. The handler writes the updated block back with
  \<open>raw.replace(fmMatch[1], fmBlock)\<close>, where the block is the replacement text, so the
  dollar patterns of \<open>replace\<close> are expanded in it. With \<open>price: "$$5"\<close> in the
  frontmatter, updating \<open>title\<close> rewrites the price line to \<open>price: "$5"\<close>, a line whose
  key is not among the fields; and with \<open>$'\<close> in a frontmatter line, even an empty update
  copies the closing delimiter and the body into the frontmatter. The claim has every
  other frontmatter line byte-identical and the body after the closing delimiter
  unchanged.
\<close>

theorem update_frontmatter_dollar:
  "update_frontmatter ''plan.mdx'' True
     (''---\<newline>title: '' @ [DQ] @ ''a'' @ [DQ] @ ''\<newline>price: '' @ [DQ] @ ''$$5'' @ [DQ] @ ''\<newline>---\<newline>\<newline>body\<newline>'')
     [(''title'', JStr ''b'')]
   = Written
     (''---\<newline>title: '' @ [DQ] @ ''b'' @ [DQ] @ ''\<newline>price: '' @ [DQ] @ ''$5'' @ [DQ] @ ''\<newline>---\<newline>\<newline>body\<newline>'')
     [''title'']
   \<and> update_frontmatter ''plan.mdx'' True
     (''---\<newline>note: it$'' @ [CHR 0x27] @ ''s\<newline>---\<newline>\<newline>body\<newline>'') []
   = Written ''---\<newline>note: it\<newline>---\<newline>\<newline>body\<newline>s\<newline>---\<newline>\<newline>body\<newline>'' []"
  by code_simp

end
